theory Spec2Isabelle
  imports Main "HOL-Library.Sublist"
begin

section \<open>JavaScript strings and the file system\<close>

text \<open>
  The builder is \<^verbatim>\<open>cordova/lib/builders/GradleBuilder.js\<close>. A JavaScript string is
  modelled as a \<^typ>\<open>string\<close>: the list of its code units, restricted to the code units
  below 256. Offsets count code units, as \<^verbatim>\<open>indexOf\<close> does.
\<close>

text \<open>\<^verbatim>\<open>s.indexOf(m)\<close>: the offset of the first occurrence of \<open>m\<close> in \<open>s\<close>, or \<open>-1\<close>.\<close>

fun indexOf :: "string \<Rightarrow> string \<Rightarrow> int" where
  "indexOf [] m = (if m = [] then 0 else -1)"
| "indexOf (c # cs) m =
     (if prefix m (c # cs) then 0
      else (let i = indexOf cs m in if i = -1 then -1 else i + 1))"

text \<open>\<open>occurs_at m s i\<close>: the text \<open>m\<close> stands in \<open>s\<close> at offset \<open>i\<close>.\<close>

definition occurs_at :: "string \<Rightarrow> string \<Rightarrow> nat \<Rightarrow> bool" where
  "occurs_at m s i = (i \<le> length s \<and> prefix m (drop i s))"

text \<open>
  The file system is a map from a path to the content of the file at that path; a path
  that is not in the domain does not exist. Directories are not files of the model, and
  a write to any path succeeds. Reading a path that does not exist throws, which is the
  error \<open>ENOENT\<close> with the path.
\<close>

type_synonym filesystem = "string \<rightharpoonup> string"

datatype error =
    CordovaError string
  | ENOENT string

definition existsSync :: "filesystem \<Rightarrow> string \<Rightarrow> bool" where
  "existsSync fs file = (fs file \<noteq> None)"

definition readFileSync :: "filesystem \<Rightarrow> string \<Rightarrow> error + string" where
  "readFileSync fs file = (case fs file of None \<Rightarrow> Inl (ENOENT file) | Some content \<Rightarrow> Inr content)"

definition writeFileSync :: "filesystem \<Rightarrow> string \<Rightarrow> string \<Rightarrow> filesystem" where
  "writeFileSync fs file content = fs(file \<mapsto> content)"

text \<open>\<^verbatim>\<open>shell.rm('-f', file)\<close>: the file is gone afterwards; a missing file is no error.\<close>

definition shell_rm_f :: "filesystem \<Rightarrow> string \<Rightarrow> filesystem" where
  "shell_rm_f fs file = fs(file := None)"

text \<open>
  \<^verbatim>\<open>shell.cp('-f', src, dst)\<close>: \<open>dst\<close> receives the content of \<open>src\<close>; with a missing
  source shelljs reports the error on the console and copies nothing.
\<close>

definition shell_cp_f :: "filesystem \<Rightarrow> string \<Rightarrow> string \<Rightarrow> filesystem" where
  "shell_cp_f fs src dst = (case fs src of None \<Rightarrow> fs | Some content \<Rightarrow> fs(dst \<mapsto> content))"

section \<open>Generated files and their marker\<close>

definition MARKER :: string where
  "MARKER = ''YOUR CHANGES WILL BE ERASED!''"

definition SIGNING_PROPERTIES :: string where
  "SIGNING_PROPERTIES = ''-signing.properties''"

definition TEMPLATE :: string where
  "TEMPLATE = ''# This file is automatically generated.\<newline>'' @
              ''# Do not modify this file -- '' @ MARKER @ ''\<newline>''"

text \<open>
  \<^verbatim>\<open>fs.existsSync(file) && fs.readFileSync(file, 'utf8').indexOf(MARKER) > 0\<close>
\<close>

definition isAutoGenerated :: "filesystem \<Rightarrow> string \<Rightarrow> bool" where
  "isAutoGenerated fs file =
     (existsSync fs file \<and>
      (case readFileSync fs file of Inl e \<Rightarrow> False | Inr content \<Rightarrow> indexOf content MARKER > 0))"

section \<open>Regular expressions and \<^verbatim>\<open>String.prototype.replace\<close>\<close>

text \<open>
  The character classes of the regular expressions, on code units below 256:
  \<^verbatim>\<open>\d\<close>, \<^verbatim>\<open>\s\<close> (tab, line feed, vertical tab, form feed, carriage return, space,
  no-break space) and the line terminators, which \<^verbatim>\<open>.\<close> does not match.
\<close>

definition is_digit :: "char \<Rightarrow> bool" where
  "is_digit c = (c \<in> set ''0123456789'')"

definition digit_val :: "char \<Rightarrow> nat" where
  "digit_val c = of_char c - 48"

definition is_line_terminator :: "char \<Rightarrow> bool" where
  "is_line_terminator c = (c = CHR 0x0A \<or> c = CHR 0x0D)"

definition is_space :: "char \<Rightarrow> bool" where
  "is_space c = (c \<in> set [CHR 0x09, CHR 0x0A, CHR 0x0B, CHR 0x0C, CHR 0x0D, CHR 0x20, CHR 0xA0])"

text \<open>
  The result of a successful \<^verbatim>\<open>exec\<close>: the text before the match, the match, the
  captured groups and the text after the match. A regular expression is modelled by its
  \<^verbatim>\<open>exec\<close> on a whole string.
\<close>

record js_match =
  m_before :: string
  m_matched :: string
  m_captures :: "string list"
  m_after :: string

type_synonym regexp = "string \<Rightarrow> js_match option"

text \<open>
  \<open>split_first pat s\<close> cuts \<open>s\<close> at the first occurrence of \<open>pat\<close>: the text before it and
  the text after it.
\<close>

fun split_first :: "string \<Rightarrow> string \<Rightarrow> (string \<times> string) option" where
  "split_first pat [] = (if pat = [] then Some ([], []) else None)"
| "split_first pat (c # cs) =
     (if prefix pat (c # cs) then Some ([], drop (length pat) (c # cs))
      else map_option (\<lambda>(a, r). (c # a, r)) (split_first pat cs))"

text \<open>The same cut at the last occurrence.\<close>

definition split_last :: "string \<Rightarrow> string \<Rightarrow> (string \<times> string) option" where
  "split_last pat s = map_option (\<lambda>(a, r). (rev r, rev a)) (split_first (rev pat) (rev s))"

text \<open>A pattern that is a string matches its first occurrence and captures nothing.\<close>

definition string_pattern :: "string \<Rightarrow> regexp" where
  "string_pattern pat s =
     (case split_first pat s of
        None \<Rightarrow> None
      | Some (a, r) \<Rightarrow> Some \<lparr>m_before = a, m_matched = pat, m_captures = [], m_after = r\<rparr>)"

text \<open>
  A replacement string is expanded by \<^verbatim>\<open>GetSubstitution\<close>: \<^verbatim>\<open>$$\<close> is a dollar sign,
  \<^verbatim>\<open>$&\<close> the match, \<^verbatim>\<open>$`\<close> the text before it, \<^verbatim>\<open>$'\<close> the text after it, and
  \<^verbatim>\<open>$n\<close> or \<^verbatim>\<open>$nn\<close> the capture of that number when the expression has one (two
  digits are tried first); any other dollar sign stands for itself.
\<close>

definition capture_ref :: "string list \<Rightarrow> nat \<Rightarrow> string option" where
  "capture_ref caps n = (if 1 \<le> n \<and> n \<le> length caps then Some (caps ! (n - 1)) else None)"

fun get_substitution :: "string \<Rightarrow> string \<Rightarrow> string \<Rightarrow> string list \<Rightarrow> string \<Rightarrow> string" where
  "get_substitution matched pre post caps [] = []"
| "get_substitution matched pre post caps [c] = [c]"
| "get_substitution matched pre post caps (c # d # t) =
     (if c \<noteq> CHR ''$'' then c # get_substitution matched pre post caps (d # t)
      else if d = CHR ''$'' then CHR ''$'' # get_substitution matched pre post caps t
      else if d = CHR ''&'' then matched @ get_substitution matched pre post caps t
      else if d = CHR 0x60 then pre @ get_substitution matched pre post caps t
      else if d = CHR 0x27 then post @ get_substitution matched pre post caps t
      else if is_digit d then
        (let one = (case capture_ref caps (digit_val d) of
                      Some cap \<Rightarrow> cap @ get_substitution matched pre post caps t
                    | None \<Rightarrow> CHR ''$'' # get_substitution matched pre post caps (d # t))
         in case t of
              [] \<Rightarrow> one
            | e # t' \<Rightarrow>
                (if is_digit e then
                   (case capture_ref caps (10 * digit_val d + digit_val e) of
                      Some cap \<Rightarrow> cap @ get_substitution matched pre post caps t'
                    | None \<Rightarrow> one)
                 else one))
      else CHR ''$'' # get_substitution matched pre post caps (d # t))"

text \<open>
  \<^verbatim>\<open>s.replace(rx, template)\<close> for an expression without the \<^verbatim>\<open>g\<close> flag, or a string
  pattern: the first match is replaced; without a match the string is returned as it is.
\<close>

definition js_replace :: "regexp \<Rightarrow> string \<Rightarrow> string \<Rightarrow> string" where
  "js_replace rx template s =
     (case rx s of
        None \<Rightarrow> s
      | Some m \<Rightarrow>
          m_before m @
          get_substitution (m_matched m) (m_before m) (m_after m) (m_captures m) template @
          m_after m)"

section \<open>Module names of sub-projects\<close>

text \<open>\<^verbatim>\<open>p.replace(/[/\\]/g, ':')\<close>: every slash and backslash becomes a colon.\<close>

definition realDir :: "string \<Rightarrow> string" where
  "realDir p = map (\<lambda>c. if c = CHR ''/'' \<or> c = CHR 0x5C then CHR '':'' else c) p"

text \<open>\<^verbatim>\<open>realDir.replace(name + '-', '')\<close>\<close>

definition libName :: "string \<Rightarrow> string \<Rightarrow> string" where
  "libName name p = js_replace (string_pattern (name @ ''-'')) [] (realDir p)"

section \<open>System libraries\<close>

text \<open>
  \<^verbatim>\<open>/:.*:/.exec(p)\<close>: from left to right, a colon that is followed by a second colon
  with no line terminator between the two.
\<close>

fun two_colons :: "string \<Rightarrow> bool" where
  "two_colons [] = False"
| "two_colons (c # r) =
     (if c = CHR '':'' \<and> CHR '':'' \<in> set (takeWhile (\<lambda>d. \<not> is_line_terminator d) r) then True
      else two_colons r)"

text \<open>
  \<^verbatim>\<open>/^\/?extras\/android\/support\/(.*)$/\<close>: an optional slash, the literal path, and
  the rest of the string as the capture; the rest holds no line terminator.
\<close>

definition rx_support :: regexp where
  "rx_support s =
     (let s' = (if prefix ''/'' s then tl s else s) in
      if prefix ''extras/android/support/'' s' \<and>
         (\<forall>d \<in> set (drop (length ''extras/android/support/'') s'). \<not> is_line_terminator d)
      then Some \<lparr>m_before = [], m_matched = s,
                 m_captures = [drop (length ''extras/android/support/'') s'], m_after = []\<rparr>
      else None)"

text \<open>
  \<^verbatim>\<open>/^\/?google\/google_play_services\/libproject\/google-play-services_lib\/?$/\<close>
\<close>

definition rx_play_services :: regexp where
  "rx_play_services s =
     (let s' = (if prefix ''/'' s then tl s else s) in
      if s' = ''google/google_play_services/libproject/google-play-services_lib'' \<or>
         s' = ''google/google_play_services/libproject/google-play-services_lib/''
      then Some \<lparr>m_before = [], m_matched = s, m_captures = [], m_after = []\<rparr>
      else None)"

definition SYSTEM_LIBRARY_MAPPINGS :: "(regexp \<times> string) list" where
  "SYSTEM_LIBRARY_MAPPINGS =
     [(rx_support, ''com.android.support:support-$1:+''),
      (rx_play_services, ''com.google.android.gms:play-services:+'')]"

text \<open>
  The \<^verbatim>\<open>for\<close> loop over the table: the first pair whose expression matches sets
  \<^verbatim>\<open>mavenRef\<close> and breaks; \<open>None\<close> is \<^verbatim>\<open>undefined\<close>.
\<close>

fun mappings_loop :: "(regexp \<times> string) list \<Rightarrow> string \<Rightarrow> string option" where
  "mappings_loop [] p = None"
| "mappings_loop (pair # rest) p =
     (if fst pair p \<noteq> None then Some (js_replace (fst pair) (snd pair) p)
      else mappings_loop rest p)"

text \<open>
  The body of \<^verbatim>\<open>propertiesObj.systemLibs.forEach\<close> up to the value of \<^verbatim>\<open>mavenRef\<close>;
  \<^verbatim>\<open>!mavenRef\<close> holds for \<^verbatim>\<open>undefined\<close> and for the empty string.
\<close>

definition mavenRef :: "(regexp \<times> string) list \<Rightarrow> string \<Rightarrow> error + string" where
  "mavenRef table p =
     (if two_colons p then Inr p
      else (case mappings_loop table p of
              None \<Rightarrow>
                Inl (CordovaError (''Unsupported system library (does not work with gradle): '' @ p))
            | Some r \<Rightarrow>
                if r = [] then
                  Inl (CordovaError (''Unsupported system library (does not work with gradle): '' @ p))
                else Inr r))"

text \<open>The whole \<^verbatim>\<open>forEach\<close>: every library appends its line to \<^verbatim>\<open>depsList\<close>.\<close>

fun systemLibs_forEach :: "(regexp \<times> string) list \<Rightarrow> string list \<Rightarrow> string \<Rightarrow> error + string" where
  "systemLibs_forEach table [] depsList = Inr depsList"
| \<open>systemLibs_forEach table (p # ps) depsList =
     (case mavenRef table p of
        Inl e \<Rightarrow> Inl e
      | Inr r \<Rightarrow> systemLibs_forEach table ps (depsList @ ''    compile "'' @ r @ ''"\<newline>''))\<close>

section \<open>The project properties\<close>

text \<open>
  One attempt of \<^verbatim>\<open>/^\s*KEY\d+=(.*)(?:\s|$)/mg\<close> at a position that is the start of a
  line, \<open>s\<close> being the text from that position on: white space (which may run over line
  ends), the literal key (each of the three keys begins with a letter), digits, an equals
  sign, and the rest of the line as the capture.
  The line terminator that follows the capture, if there is one, is the last character
  of the match. The result is the capture and the text after the match.
\<close>

definition exec_property_at :: "string \<Rightarrow> string \<Rightarrow> (string \<times> string) option" where
  "exec_property_at key s =
     (let s1 = dropWhile is_space s in
      if prefix key s1 then
        (let s2 = drop (length key) s1; s3 = dropWhile is_digit s2 in
         if takeWhile is_digit s2 \<noteq> [] \<and> prefix ''='' s3 then
           (let s4 = drop 1 s3 in
            Some (takeWhile (\<lambda>c. \<not> is_line_terminator c) s4,
                  drop 1 (dropWhile (\<lambda>c. \<not> is_line_terminator c) s4)))
         else None)
      else None)"

lemma exec_property_at_shorter:
  "exec_property_at key s = Some (m1, rest) \<Longrightarrow> length rest < length s"
proof -
  assume a: "exec_property_at key s = Some (m1, rest)"
  define s1 where "s1 = dropWhile is_space s"
  define s3 where "s3 = dropWhile is_digit (drop (length key) s1)"
  define s4 where "s4 = drop 1 s3"
  from a have p: "prefix ''='' s3" and r: "rest = drop 1 (dropWhile (\<lambda>c. \<not> is_line_terminator c) s4)"
    by (auto simp: exec_property_at_def Let_def s1_def s3_def s4_def split: if_splits)
  have "length (dropWhile (\<lambda>c. \<not> is_line_terminator c) s4) \<le> length s4"
    by (rule length_dropWhile_le)
  then have "length rest \<le> length s4" unfolding r by simp
  moreover have "length s4 < length s3" using p by (auto simp: s4_def prefix_def)
  moreover have "length s3 \<le> length (drop (length key) s1)" unfolding s3_def
    by (rule length_dropWhile_le)
  moreover have "length (drop (length key) s1) \<le> length s1" by simp
  moreover have "length s1 \<le> length s" unfolding s1_def by (rule length_dropWhile_le)
  ultimately show ?thesis by linarith
qed

text \<open>
  The loop \<^verbatim>\<open>while ((m = r.exec(data)))\<close>: every \<^verbatim>\<open>exec\<close> searches from the end of
  the previous match, position by position, and \<^verbatim>\<open>^\<close> holds at the start of the text
  and after a line terminator (\<open>bol\<close>). The result lists \<^verbatim>\<open>m[1]\<close> of every match.
\<close>

function exec_all :: "string \<Rightarrow> bool \<Rightarrow> string \<Rightarrow> string list" where
  "exec_all key bol s =
     (case (if bol then exec_property_at key s else None) of
        Some (m1, rest) \<Rightarrow> m1 # exec_all key True rest
      | None \<Rightarrow> (case s of [] \<Rightarrow> [] | c # cs \<Rightarrow> exec_all key (is_line_terminator c) cs))"
  by pat_completeness auto
termination
  by (relation "measure (\<lambda>(key, bol, s). length s)")
     (auto split: if_splits dest: exec_property_at_shorter)

declare exec_all.simps [simp del]

text \<open>
  \<^verbatim>\<open>var s = {}\<close> used as a set: the object is the list of its own property names in the
  order of their creation. \<^verbatim>\<open>s[k] = 1\<close> creates the property \<open>k\<close> when it is not there;
  for \<^verbatim>\<open>__proto__\<close> the assignment calls the setter of \<^verbatim>\<open>Object.prototype\<close>, which
  ignores a number and creates nothing.
\<close>

definition object_set :: "string list \<Rightarrow> string \<Rightarrow> string list" where
  "object_set s k = (if k = ''__proto__'' \<or> k \<in> set s then s else s @ [k])"

text \<open>
  An array index is the canonical decimal string of an integer below \<open>2^32 - 1\<close>.
  \<^verbatim>\<open>Object.keys\<close> lists the array indices first, in ascending numeric order, then the
  other names in the order of their creation.
\<close>

definition decimal_value :: "string \<Rightarrow> int" where
  "decimal_value k = foldl (\<lambda>n c. 10 * n + int (digit_val c)) 0 k"

definition array_index :: "string \<Rightarrow> bool" where
  "array_index k =
     (k \<noteq> [] \<and> (\<forall>c \<in> set k. is_digit c) \<and> (hd k \<noteq> CHR ''0'' \<or> k = ''0'') \<and>
      decimal_value k < 4294967295)"

definition Object_keys :: "string list \<Rightarrow> string list" where
  "Object_keys s = sort_key decimal_value (filter array_index s) @ filter (\<lambda>k. \<not> array_index k) s"

definition findAllUniq :: "string \<Rightarrow> string \<Rightarrow> string list" where
  "findAllUniq data key = Object_keys (foldl object_set [] (exec_all key True data))"

record properties =
  libs :: "string list"
  gradleIncludes :: "string list"
  systemLibs :: "string list"

text \<open>
  \<^verbatim>\<open>path.join\<close> is a parameter of the model, \<open>J\<close>: the builder only ever joins the
  project root with fixed names and with the sub-project paths.
\<close>

type_synonym path_join = "string list \<Rightarrow> string"

definition readProjectProperties :: "path_join \<Rightarrow> string \<Rightarrow> filesystem \<Rightarrow> error + properties" where
  "readProjectProperties J root fs =
     (case readFileSync fs (J [root, ''project.properties'']) of
        Inl e \<Rightarrow> Inl e
      | Inr data \<Rightarrow>
          Inr \<lparr>libs = findAllUniq data ''android.library.reference.'',
               gradleIncludes = findAllUniq data ''cordova.gradle.include.'',
               systemLibs = findAllUniq data ''cordova.system.library.''\<rparr>)"

text \<open>
  The reading of the specification, for comparison: the values in the order in which
  they are first seen, each value once.
\<close>

fun first_seen :: "'a list \<Rightarrow> 'a list" where
  "first_seen [] = []"
| "first_seen (x # xs) = x # first_seen (removeAll x xs)"

section \<open>The name of the host project\<close>

text \<open>
  Matching without regard to case (the \<^verbatim>\<open>i\<close> flag) against a pattern of ASCII
  characters: a character of the text matches a letter of the pattern in either case.
\<close>

definition canonicalize :: "char \<Rightarrow> char" where
  "canonicalize c =
     (if c \<in> set ''abcdefghijklmnopqrstuvwxyz'' then char_of (of_char c - (32::nat)) else c)"

fun ci_prefix :: "string \<Rightarrow> string \<Rightarrow> bool" where
  "ci_prefix [] s = True"
| "ci_prefix (p # ps) [] = False"
| "ci_prefix (p # ps) (c # cs) = (canonicalize p = canonicalize c \<and> ci_prefix ps cs)"

text \<open>
  \<^verbatim>\<open>/<manifest[\s\S]*?package\s*=\s*"(.*?)"/i\<close> in three steps. At a position:
  \<^verbatim>\<open>package\s*=\s*"(.*?)"\<close>, whose capture runs to the first double quote and holds
  no line terminator.
\<close>

definition exec_package_at :: "string \<Rightarrow> string option" where
  \<open>exec_package_at s =
     (if ci_prefix ''package'' s then
        (let s1 = dropWhile is_space (drop (length ''package'') s) in
         if prefix ''='' s1 then
           (let s2 = dropWhile is_space (drop 1 s1) in
            if prefix ''"'' s2 then
              (let s3 = drop 1 s2;
                   inside = (\<lambda>c. c \<noteq> CHR 0x22 \<and> \<not> is_line_terminator c) in
               if prefix ''"'' (dropWhile inside s3) then Some (takeWhile inside s3) else None)
            else None)
         else None)
      else None)\<close>

text \<open>\<^verbatim>\<open>[\s\S]*?\<close> is lazy: the first position at which the rest matches.\<close>

fun exec_package :: "string \<Rightarrow> string option" where
  "exec_package [] = exec_package_at []"
| "exec_package (c # cs) =
     (case exec_package_at (c # cs) of Some m1 \<Rightarrow> Some m1 | None \<Rightarrow> exec_package cs)"

text \<open>The first \<^verbatim>\<open><manifest\<close> after which the rest matches.\<close>

fun exec_manifest :: "string \<Rightarrow> string option" where
  "exec_manifest [] = None"
| "exec_manifest (c # cs) =
     (if ci_prefix ''<manifest'' (c # cs) then
        (case exec_package (drop (length ''<manifest'') (c # cs)) of
           Some m1 \<Rightarrow> Some m1
         | None \<Rightarrow> exec_manifest cs)
      else exec_manifest cs)"

definition lastIndexOf :: "string \<Rightarrow> string \<Rightarrow> int" where
  "lastIndexOf s m = (case split_last m s of None \<Rightarrow> - 1 | Some (b, f) \<Rightarrow> int (length b))"

definition substring :: "string \<Rightarrow> int \<Rightarrow> string" where
  "substring s start = drop (nat start) s"

definition extractRealProjectNameFromManifest ::
    "path_join \<Rightarrow> string \<Rightarrow> filesystem \<Rightarrow> error + string" where
  "extractRealProjectNameFromManifest J root fs =
     (let manifestPath = J [root, ''AndroidManifest.xml''] in
      case readFileSync fs manifestPath of
        Inl e \<Rightarrow> Inl e
      | Inr manifestData \<Rightarrow>
          (case exec_manifest manifestData of
             None \<Rightarrow> Inl (CordovaError (''Could not find package name in '' @ manifestPath))
           | Some packageName \<Rightarrow>
               (let lastDotIndex = lastIndexOf packageName ''.''
                in Inr (substring packageName (lastDotIndex + 1)))))"

section \<open>Making the project buildable\<close>

text \<open>
  \<^verbatim>\<open>checkAndCopy\<close>: a sub-project without a \<^verbatim>\<open>build.gradle\<close> receives a copy of
  \<^verbatim>\<open>plugin-build.gradle\<close>.
\<close>

definition checkAndCopy :: "path_join \<Rightarrow> string \<Rightarrow> filesystem \<Rightarrow> string \<Rightarrow> string \<Rightarrow> filesystem" where
  "checkAndCopy J pluginBuildGradle fs subProject root =
     (let subProjectGradle = J [root, subProject, ''build.gradle''] in
      if existsSync fs subProjectGradle then fs
      else shell_cp_f fs pluginBuildGradle subProjectGradle)"

fun copy_loop :: "path_join \<Rightarrow> string \<Rightarrow> string \<Rightarrow> filesystem \<Rightarrow> string list \<Rightarrow> filesystem" where
  "copy_loop J pluginBuildGradle root fs [] = fs"
| "copy_loop J pluginBuildGradle root fs (p # ps) =
     copy_loop J pluginBuildGradle root
       (if p \<noteq> ''CordovaLib'' \<and> p \<noteq> ''app'' then checkAndCopy J pluginBuildGradle fs p root else fs)
       ps"

definition settingsGradlePaths :: "string \<Rightarrow> string list \<Rightarrow> string list" where
  \<open>settingsGradlePaths name subProjects =
     map (\<lambda>p.
       let str = ''include ":'' @ libName name p @ ''"\<newline>'' in
       if indexOf (realDir p) (name @ ''-'') \<noteq> - 1
       then str @ ''project(":'' @ libName name p @ ''").projectDir = new File("'' @ p @ ''")\<newline>''
       else str) subProjects\<close>

definition settings_gradle :: "string \<Rightarrow> string list \<Rightarrow> string" where
  \<open>settings_gradle name subProjects =
     ''// GENERATED FILE - DO NOT EDIT\<newline>'' @ ''include ":"\<newline>'' @
     concat (settingsGradlePaths name subProjects)\<close>

definition insertExclude ::
    "path_join \<Rightarrow> string \<Rightarrow> filesystem \<Rightarrow> string \<Rightarrow> string \<Rightarrow> error + string" where
  \<open>insertExclude J root fs depsList p =
     (case readFileSync fs (J [root, p, ''build.gradle'']) of
        Inl e \<Rightarrow> Inl e
      | Inr projectGradleFile \<Rightarrow>
          if indexOf projectGradleFile ''CordovaLib'' \<noteq> - 1
          then Inr (depsList @ ''{\<newline>        exclude module:("CordovaLib")\<newline>    }\<newline>'')
          else Inr (depsList @ ''\<newline>''))\<close>

fun subProjects_forEach ::
    "path_join \<Rightarrow> string \<Rightarrow> filesystem \<Rightarrow> string \<Rightarrow> string list \<Rightarrow> string \<Rightarrow> error + string" where
  "subProjects_forEach J root fs name [] depsList = Inr depsList"
| \<open>subProjects_forEach J root fs name (p # ps) depsList =
     (case insertExclude J root fs
             (depsList @ ''    implementation(project(path: "'' @ libName name p @ ''"))'') p of
        Inl e \<Rightarrow> Inl e
      | Inr depsList' \<Rightarrow> subProjects_forEach J root fs name ps depsList')\<close>

text \<open>
  \<^verbatim>\<open>/(START)[\s\S]*(END)/\<close> for two literal texts: the match starts at the first
  \<open>START\<close> that has an \<open>END\<close> after it, which is the first \<open>START\<close> of the text, and
  the greedy star runs to the last \<open>END\<close>.
\<close>

definition marker_rx :: "string \<Rightarrow> string \<Rightarrow> regexp" where
  "marker_rx START END s =
     (case split_first START s of
        None \<Rightarrow> None
      | Some (a, r) \<Rightarrow>
          (case split_last END r of
             None \<Rightarrow> None
           | Some (b, f) \<Rightarrow>
               Some \<lparr>m_before = a, m_matched = START @ b @ END, m_captures = [START, END],
                     m_after = f\<rparr>))"

definition SUB_PROJECT_DEPENDENCIES_START :: string where
  "SUB_PROJECT_DEPENDENCIES_START = ''SUB-PROJECT DEPENDENCIES START''"

definition SUB_PROJECT_DEPENDENCIES_END :: string where
  "SUB_PROJECT_DEPENDENCIES_END = ''// SUB-PROJECT DEPENDENCIES END''"

definition PLUGIN_GRADLE_EXTENSIONS_START :: string where
  "PLUGIN_GRADLE_EXTENSIONS_START = ''PLUGIN GRADLE EXTENSIONS START''"

definition PLUGIN_GRADLE_EXTENSIONS_END :: string where
  "PLUGIN_GRADLE_EXTENSIONS_END = ''// PLUGIN GRADLE EXTENSIONS END''"

definition includeList_of :: "string list \<Rightarrow> string" where
  \<open>includeList_of includePaths =
     concat (map (\<lambda>includePath. ''apply from: "'' @ includePath @ ''"\<newline>'') includePaths)\<close>

text \<open>The two \<^verbatim>\<open>buildGradle.replace\<close> calls, one after the other.\<close>

definition inject :: "string \<Rightarrow> string \<Rightarrow> string \<Rightarrow> string" where
  "inject depsList includeList buildGradle =
     js_replace (marker_rx PLUGIN_GRADLE_EXTENSIONS_START PLUGIN_GRADLE_EXTENSIONS_END)
       (''$1\<newline>'' @ includeList @ ''$2'')
       (js_replace (marker_rx SUB_PROJECT_DEPENDENCIES_START SUB_PROJECT_DEPENDENCIES_END)
          (''$1\<newline>'' @ depsList @ ''    $2'') buildGradle)"

text \<open>
  Three properties of texts, for the claims about the injection. A generated text
  consists of whole lines when it is empty or ends with a line feed. In a text
  \<open>before @ pat @ rest\<close> the shown \<open>pat\<close> is the first occurrence when no occurrence
  starts in \<open>before\<close>; in a text \<open>rest @ pat @ after\<close> it is the last occurrence when no
  occurrence starts after it.
\<close>

definition whole_lines :: "string \<Rightarrow> bool" where
  "whole_lines t = (t = [] \<or> last t = CHR ''\<newline>'')"

definition no_earlier :: "string \<Rightarrow> string \<Rightarrow> bool" where
  "no_earlier pat before = (\<not> sublist pat (before @ butlast pat))"

definition no_later :: "string \<Rightarrow> string \<Rightarrow> bool" where
  "no_later pat after = (\<not> sublist pat (tl pat @ after))"

text \<open>
  \<^verbatim>\<open>prepBuildFiles\<close>. The result is the outcome, an error for an exception thrown,
  together with the file system as the function leaves it.
\<close>

definition prepBuildFiles :: "path_join \<Rightarrow> string \<Rightarrow> filesystem \<Rightarrow> (error + unit) \<times> filesystem" where
  "prepBuildFiles J root fs =
     (let pluginBuildGradle = J [root, ''cordova'', ''lib'', ''plugin-build.gradle''] in
      case readProjectProperties J root fs of
        Inl e \<Rightarrow> (Inl e, fs)
      | Inr propertiesObj \<Rightarrow>
          (let subProjects = libs propertiesObj;
               fs1 = copy_loop J pluginBuildGradle root fs subProjects in
           case extractRealProjectNameFromManifest J root fs1 of
             Inl e \<Rightarrow> (Inl e, fs1)
           | Inr name \<Rightarrow>
               (let fs2 = writeFileSync fs1 (J [root, ''settings.gradle''])
                            (settings_gradle name subProjects) in
                case readFileSync fs2 (J [root, ''build.gradle'']) of
                  Inl e \<Rightarrow> (Inl e, fs2)
                | Inr buildGradle \<Rightarrow>
                    (case subProjects_forEach J root fs2 name subProjects [] of
                       Inl e \<Rightarrow> (Inl e, fs2)
                     | Inr depsList' \<Rightarrow>
                         (case systemLibs_forEach SYSTEM_LIBRARY_MAPPINGS
                                 (systemLibs propertiesObj) depsList' of
                            Inl e \<Rightarrow> (Inl e, fs2)
                          | Inr depsList \<Rightarrow>
                              (Inr (),
                               writeFileSync fs2 (J [root, ''build.gradle''])
                                 (inject depsList (includeList_of (gradleIncludes propertiesObj))
                                    buildGradle)))))))"

section \<open>Signing properties\<close>

record opts =
  buildType :: string
  packageInfo :: "string option"

text \<open>
  \<^verbatim>\<open>shell.sed('-i', rx, replacement, file)\<close> rewrites an existing file in place; the
  rewriting of the text is a parameter, \<open>sed\<close>.
\<close>

definition shell_sed_i :: "(string \<Rightarrow> string) \<Rightarrow> filesystem \<Rightarrow> string \<Rightarrow> filesystem" where
  "shell_sed_i sed fs file = (case fs file of None \<Rightarrow> fs | Some content \<Rightarrow> fs(file \<mapsto> sed content))"

text \<open>
  \<^verbatim>\<open>prepEnv\<close> from \<^verbatim>\<open>prepBuildFiles\<close> on; the check of the requirements and the
  gradle wrapper before it are other programs. \<open>packageInfo\<close> is the text that
  \<^verbatim>\<open>opts.packageInfo.toProperties()\<close> returns, when there is a \<^verbatim>\<open>packageInfo\<close>.
\<close>

definition prepEnv ::
    "path_join \<Rightarrow> (string \<Rightarrow> string) \<Rightarrow> string \<Rightarrow> opts \<Rightarrow> filesystem \<Rightarrow> (error + unit) \<times> filesystem" where
  "prepEnv J sed root opts fs =
     (case prepBuildFiles J root fs of
        (Inl e, fs1) \<Rightarrow> (Inl e, fs1)
      | (Inr u, fs1) \<Rightarrow>
          (let gradleWrapperPropertiesPath =
                 J [root, ''gradle'', ''wrapper'', ''gradle-wrapper.properties''];
               fs2 = shell_sed_i sed fs1 gradleWrapperPropertiesPath;
               propertiesFile = buildType opts @ SIGNING_PROPERTIES;
               propertiesFilePath = J [root, propertiesFile]
           in (Inr (),
               case packageInfo opts of
                 Some info \<Rightarrow> writeFileSync fs2 propertiesFilePath (TEMPLATE @ info)
               | None \<Rightarrow>
                   if isAutoGenerated fs2 propertiesFilePath then shell_rm_f fs2 propertiesFilePath
                   else fs2)))"

text \<open>
  \<^verbatim>\<open>shell.rm('-rf', dir)\<close> removes what lies in \<open>dir\<close>; which paths lie in a directory
  is a parameter, \<open>inside\<close>.
\<close>

definition shell_rm_rf :: "(string \<Rightarrow> string \<Rightarrow> bool) \<Rightarrow> filesystem \<Rightarrow> string \<Rightarrow> filesystem" where
  "shell_rm_rf inside fs dir = (\<lambda>file. if inside dir file then None else fs file)"

text \<open>\<^verbatim>\<open>clean\<close>, after the gradle process has ended without an error.\<close>

definition clean_config :: "path_join \<Rightarrow> string \<Rightarrow> filesystem \<Rightarrow> string \<Rightarrow> filesystem" where
  "clean_config J root fs config =
     (let propertiesFilePath = J [root, config @ SIGNING_PROPERTIES] in
      if isAutoGenerated fs propertiesFilePath then shell_rm_f fs propertiesFilePath else fs)"

definition clean :: "path_join \<Rightarrow> (string \<Rightarrow> string \<Rightarrow> bool) \<Rightarrow> string \<Rightarrow> filesystem \<Rightarrow> filesystem" where
  "clean J inside root fs =
     foldl (clean_config J root) (shell_rm_rf inside fs (J [root, ''out''])) [''debug'', ''release'']"

section \<open>An example project\<close>

text \<open>
  A \<^verbatim>\<open>path.join\<close> for the examples, which puts a slash before every part, and the files
  of a project \<open>r\<close> whose package is \<open>com.example.host\<close>: a sub-project \<open>host-lib\<close>
  beside \<open>CordovaLib\<close>, one system library, one gradle include, and a signing-properties
  file that its owner has written.
\<close>

definition join_slash :: path_join where
  "join_slash parts = concat (map (\<lambda>part. CHR ''/'' # part) parts)"

definition example_build_gradle :: string where
  "example_build_gradle =
     ''// PLUGIN GRADLE EXTENSIONS START\<newline>'' @
     ''// PLUGIN GRADLE EXTENSIONS END\<newline>'' @
     ''dependencies {\<newline>'' @
     ''    // SUB-PROJECT DEPENDENCIES START\<newline>'' @
     ''    old\<newline>'' @
     ''    // SUB-PROJECT DEPENDENCIES END\<newline>'' @
     ''}\<newline>''"

definition example_fs :: filesystem where
  \<open>example_fs =
     [''/r/project.properties'' \<mapsto>
        ''android.library.reference.1=CordovaLib\<newline>'' @
        ''android.library.reference.2=host-lib\<newline>'' @
        ''cordova.system.library.1=extras/android/support/v4\<newline>'' @
        ''cordova.gradle.include.1=extra.gradle\<newline>'',
      ''/r/AndroidManifest.xml'' \<mapsto> ''<manifest package="com.example.host">'',
      ''/r/build.gradle'' \<mapsto> example_build_gradle,
      ''/r/CordovaLib/build.gradle'' \<mapsto> ''android {}'',
      ''/r/cordova/lib/plugin-build.gradle'' \<mapsto> ''dependencies { CordovaLib }'',
      ''/r/debug-signing.properties'' \<mapsto> ''storeFile=my.keystore\<newline>'']\<close>

text \<open>For the examples, a path lies in a directory when it starts with the directory and a slash.\<close>

definition inside_slash :: "string \<Rightarrow> string \<Rightarrow> bool" where
  "inside_slash dir file = prefix (dir @ ''/'') file"

section \<open>Facts about \<open>indexOf\<close>\<close>

lemma indexOf_ge: "- 1 \<le> indexOf s m"
  by (induction s) (auto simp: Let_def)

lemma indexOf_zero_iff: "indexOf s m = 0 \<longleftrightarrow> prefix m s"
proof (cases s)
  case Nil
  then show ?thesis by auto
next
  case (Cons c cs)
  have "- 1 \<le> indexOf cs m" by (rule indexOf_ge)
  then show ?thesis using Cons by (auto simp: Let_def)
qed

lemma indexOf_absent_iff: "indexOf s m = - 1 \<longleftrightarrow> \<not> sublist m s"
proof (induction s)
  case Nil
  then show ?case by auto
next
  case (Cons c cs)
  have "- 1 \<le> indexOf cs m" by (rule indexOf_ge)
  then show ?case using Cons by (auto simp: Let_def sublist_Cons_right)
qed

lemma indexOf_pos_iff: "0 < indexOf s m \<longleftrightarrow> sublist m s \<and> \<not> prefix m s"
proof -
  have "- 1 \<le> indexOf s m" by (rule indexOf_ge)
  moreover have "indexOf s m \<noteq> - 1 \<longleftrightarrow> sublist m s" by (simp add: indexOf_absent_iff)
  moreover have "indexOf s m \<noteq> 0 \<longleftrightarrow> \<not> prefix m s" by (simp add: indexOf_zero_iff)
  ultimately show ?thesis by linarith
qed

lemma occurs_at_zero: "occurs_at m s 0 \<longleftrightarrow> prefix m s"
  by (simp add: occurs_at_def)

lemma sublist_iff_occurs_at: "sublist m s \<longleftrightarrow> (\<exists>i. occurs_at m s i)"
proof
  assume "sublist m s"
  then obtain ps ss where s: "s = ps @ m @ ss" by (auto simp: sublist_def)
  then have "occurs_at m s (length ps)" by (simp add: occurs_at_def)
  then show "\<exists>i. occurs_at m s i" ..
next
  assume "\<exists>i. occurs_at m s i"
  then obtain i where i: "i \<le> length s" "prefix m (drop i s)" by (auto simp: occurs_at_def)
  then obtain ss where "drop i s = m @ ss" by (auto simp: prefix_def)
  then have "s = take i s @ m @ ss" by (metis append_take_drop_id)
  then show "sublist m s" by (auto simp: sublist_def)
qed

lemma isAutoGenerated_iff:
  "isAutoGenerated fs file \<longleftrightarrow>
     (\<exists>content. fs file = Some content \<and> sublist MARKER content \<and> \<not> prefix MARKER content)"
  by (auto simp: isAutoGenerated_def existsSync_def readFileSync_def indexOf_pos_iff
           split: option.splits)

lemma MARKER_in_TEMPLATE: "sublist MARKER (TEMPLATE @ payload)"
proof -
  have "TEMPLATE @ payload =
        (''# This file is automatically generated.\<newline>'' @ ''# Do not modify this file -- '') @
        MARKER @ (''\<newline>'' @ payload)"
    by (simp add: TEMPLATE_def)
  then show ?thesis unfolding sublist_def by blast
qed

lemma TEMPLATE_not_MARKER_first: "\<not> prefix MARKER (TEMPLATE @ payload)"
  by (simp add: TEMPLATE_def MARKER_def)

section \<open>Facts about cutting a text at a pattern\<close>

lemma prefix_append_long: "length pat \<le> length x \<Longrightarrow> prefix pat (x @ r) = prefix pat x"
  by (auto simp: prefix_append)

lemma not_sublist_shorter: "length s < length pat \<Longrightarrow> \<not> sublist pat s"
  using sublist_length_le by fastforce

lemma split_first_iff:
  assumes "pat \<noteq> []"
  shows "split_first pat s = Some (a, r) \<longleftrightarrow> s = a @ pat @ r \<and> \<not> sublist pat (a @ butlast pat)"
  using assms
proof (induction s arbitrary: a)
  case Nil
  then show ?case by auto
next
  case (Cons c cs)
  have bl: "(x @ butlast pat) @ [last pat] @ r = x @ pat @ r" for x
  proof -
    have "(x @ butlast pat) @ [last pat] @ r = x @ (butlast pat @ [last pat]) @ r" by simp
    also have "butlast pat @ [last pat] = pat" using Cons.prems by simp
    finally show ?thesis .
  qed
  show ?case
  proof (cases "prefix pat (c # cs)")
    case True
    have nb: "\<not> sublist pat (butlast pat)"
      using Cons.prems by (intro not_sublist_shorter) (simp add: length_greater_0_conv)
    show ?thesis
    proof (cases a)
      case Nil
      with True nb show ?thesis by (auto simp: prefix_def)
    next
      case (Cons x a')
      have "sublist pat (a @ butlast pat)" if "c # cs = a @ pat @ r"
      proof -
        have "length pat \<le> length (a @ butlast pat)" using Cons by simp
        moreover have "prefix pat ((a @ butlast pat) @ [last pat] @ r)"
          using True that by (simp only: bl)
        ultimately have "prefix pat (a @ butlast pat)" using prefix_append_long by blast
        then show ?thesis by (meson prefix_imp_sublist)
      qed
      with True Cons show ?thesis by auto
    qed
  next
    case False
    show ?thesis
    proof (cases a)
      case Nil
      with False show ?thesis by (auto simp: prefix_def)
    next
      case (Cons x a')
      have np: "\<not> prefix pat (c # a' @ butlast pat)" if "cs = a' @ pat @ r"
      proof
        assume "prefix pat (c # a' @ butlast pat)"
        then have "prefix pat (((c # a') @ butlast pat) @ [last pat] @ r)"
          using prefix_prefix by fastforce
        then have "prefix pat ((c # a') @ pat @ r)" by (simp only: bl)
        then have "prefix pat (c # cs)" using that by simp
        with False show False by simp
      qed
      show ?thesis using False Cons Cons.IH[OF \<open>pat \<noteq> []\<close>, of a'] np
        by (auto simp: sublist_Cons_right)
    qed
  qed
qed

lemma split_first_None_iff: "split_first pat s = None \<longleftrightarrow> \<not> sublist pat s"
  by (induction s) (auto simp: sublist_Cons_right)

lemma split_last_iff:
  assumes "pat \<noteq> []"
  shows "split_last pat s = Some (b, f) \<longleftrightarrow> s = b @ pat @ f \<and> \<not> sublist pat (tl pat @ f)"
proof -
  have "split_last pat s = Some (b, f) \<longleftrightarrow> split_first (rev pat) (rev s) = Some (rev f, rev b)"
    by (auto simp: split_last_def)
  also have "\<dots> \<longleftrightarrow> rev s = rev f @ rev pat @ rev b \<and> \<not> sublist (rev pat) (rev f @ butlast (rev pat))"
    using assms by (simp add: split_first_iff)
  also have "rev s = rev f @ rev pat @ rev b \<longleftrightarrow> s = b @ pat @ f"
    by (metis rev_append rev_rev_ident append_assoc)
  also have "sublist (rev pat) (rev f @ butlast (rev pat)) \<longleftrightarrow> sublist pat (tl pat @ f)"
    by (metis butlast_rev rev_append rev_rev_ident sublist_rev)
  finally show ?thesis .
qed

lemma split_last_None_iff: "split_last pat s = None \<longleftrightarrow> \<not> sublist pat s"
  by (simp add: split_last_def split_first_None_iff)

section \<open>Facts about the parsed values and the mapping table\<close>

lemma two_colons_count: "two_colons p \<Longrightarrow> 2 \<le> count_list p CHR '':''"
proof (induction p)
  case Nil
  then show ?case by simp
next
  case (Cons c r)
  show ?case
  proof (cases "c = CHR '':'' \<and> CHR '':'' \<in> set (takeWhile (\<lambda>d. \<not> is_line_terminator d) r)")
    case True
    then have "CHR '':'' \<in> set r" by (meson set_takeWhileD)
    then have "count_list r CHR '':'' \<noteq> 0" by (simp add: count_list_0_iff)
    with True show ?thesis by simp
  next
    case False
    with Cons have "2 \<le> count_list r CHR '':''" by auto
    then show ?thesis by simp
  qed
qed

lemma count_two_colons:
  "\<forall>c \<in> set p. \<not> is_line_terminator c \<Longrightarrow> 2 \<le> count_list p CHR '':'' \<Longrightarrow> two_colons p"
proof (induction p)
  case Nil
  then show ?case by simp
next
  case (Cons c r)
  have tw: "takeWhile (\<lambda>d. \<not> is_line_terminator d) r = r"
    using Cons.prems(1) by (simp add: takeWhile_eq_all_conv)
  show ?case
  proof (cases "c = CHR '':''")
    case True
    with Cons.prems(2) have "count_list r CHR '':'' \<noteq> 0" by simp
    then have "CHR '':'' \<in> set r" by (simp add: count_list_0_iff)
    with True show ?thesis by (simp add: tw)
  next
    case False
    with Cons show ?thesis by simp
  qed
qed

lemma exec_all_no_line_terminator:
  "m \<in> set (exec_all key bol s) \<Longrightarrow> \<forall>c \<in> set m. \<not> is_line_terminator c"
proof (induction key bol s rule: exec_all.induct)
  case (1 key bol s)
  show ?case
  proof (cases "if bol then exec_property_at key s else None")
    case None
    show ?thesis
    proof (cases s)
      case Nil
      with None "1.prems" show ?thesis by (subst (asm) exec_all.simps) simp
    next
      case (Cons c cs)
      with None "1.prems" have "m \<in> set (exec_all key (is_line_terminator c) cs)"
        by (subst (asm) exec_all.simps) simp
      with "1.IH"(1)[OF None Cons] show ?thesis by simp
    qed
  next
    case (Some a)
    obtain m1 rest where a: "a = (m1, rest)" by (cases a)
    from Some a "1.prems" have "m = m1 \<or> m \<in> set (exec_all key True rest)"
      by (subst (asm) exec_all.simps) auto
    moreover have "\<forall>c \<in> set m1. \<not> is_line_terminator c"
    proof -
      from Some a have "exec_property_at key s = Some (m1, rest)" by (auto split: if_splits)
      then obtain s4 where "m1 = takeWhile (\<lambda>c. \<not> is_line_terminator c) s4"
        by (auto simp: exec_property_at_def Let_def split: if_splits)
      then show ?thesis by (auto dest: set_takeWhileD)
    qed
    ultimately show ?thesis using "1.IH"(2)[OF Some a[symmetric]] by auto
  qed
qed

lemma set_foldl_object_set:
  "set (foldl object_set acc ms) = set acc \<union> (set ms - {''__proto__''})"
  by (induction ms arbitrary: acc) (auto simp: object_set_def)

lemma set_Object_keys: "set (Object_keys s) = set s"
  by (auto simp: Object_keys_def)

lemma set_findAllUniq:
  "set (findAllUniq data key) = set (exec_all key True data) - {''__proto__''}"
  by (simp add: findAllUniq_def set_Object_keys set_foldl_object_set)

lemma findAllUniq_no_line_terminator:
  "p \<in> set (findAllUniq data key) \<Longrightarrow> \<forall>c \<in> set p. \<not> is_line_terminator c"
  using exec_all_no_line_terminator by (auto simp: set_findAllUniq)

lemma mappings_loop_first:
  "\<forall>pair \<in> set earlier. fst pair p = None \<Longrightarrow> rx p \<noteq> None \<Longrightarrow>
   mappings_loop (earlier @ (rx, template) # later) p = Some (js_replace rx template p)"
  by (induction earlier) auto

lemma mappings_loop_none:
  "\<forall>pair \<in> set table. fst pair p = None \<Longrightarrow> mappings_loop table p = None"
  by (induction table) auto


lemma js_replace_rx_support:
  "rx_support p = Some m \<Longrightarrow>
   js_replace rx_support ''com.android.support:support-$1:+'' p =
     ''com.android.support:support-'' @ hd (m_captures m) @ '':+''"
  by (auto simp: js_replace_def rx_support_def Let_def capture_ref_def is_digit_def digit_val_def
           split: if_splits)

lemma js_replace_rx_play_services:
  "rx_play_services p = Some m \<Longrightarrow>
   js_replace rx_play_services ''com.google.android.gms:play-services:+'' p =
     ''com.google.android.gms:play-services:+''"
  by (auto simp: js_replace_def rx_play_services_def Let_def split: if_splits)

section \<open>Facts about the object used as a set\<close>

lemma set_first_seen: "set (first_seen xs) = set xs"
  by (induction xs rule: first_seen.induct) auto

lemma distinct_first_seen: "distinct (first_seen xs)"
  by (induction xs rule: first_seen.induct) (auto simp: set_first_seen)

lemma foldl_object_set_first_seen:
  "''__proto__'' \<notin> set ms \<Longrightarrow>
   foldl object_set acc ms = acc @ first_seen (filter (\<lambda>x. x \<notin> set acc) ms)"
proof (induction ms arbitrary: acc)
  case Nil
  then show ?case by simp
next
  case (Cons x xs)
  show ?case
  proof (cases "x \<in> set acc")
    case True
    with Cons show ?thesis by (simp add: object_set_def)
  next
    case False
    have "filter (\<lambda>y. y \<notin> set (acc @ [x])) xs = removeAll x (filter (\<lambda>y. y \<notin> set acc) xs)"
      by (induction xs) auto
    moreover from Cons.prems have "x \<noteq> ''__proto__''" by auto
    ultimately show ?thesis using False Cons by (simp add: object_set_def)
  qed
qed

lemma distinct_Object_keys: "distinct (Object_keys s) = distinct s"
  by (induction s) (auto simp: Object_keys_def)

lemma Object_keys_no_index: "\<forall>k \<in> set s. \<not> array_index k \<Longrightarrow> Object_keys s = s"
proof -
  assume a: "\<forall>k \<in> set s. \<not> array_index k"
  then have "filter array_index s = []" by (simp add: filter_empty_conv)
  moreover from a have "filter (\<lambda>k. \<not> array_index k) s = s" by (simp add: filter_id_conv)
  ultimately show ?thesis by (simp add: Object_keys_def)
qed

section \<open>Facts about the files that \<open>prepBuildFiles\<close> touches\<close>

lemma checkAndCopy_keeps:
  "fs file = Some content \<Longrightarrow> checkAndCopy J plugin fs p root file = Some content"
  by (auto simp: checkAndCopy_def Let_def existsSync_def shell_cp_f_def split: option.splits)

lemma copy_loop_keeps:
  "fs file = Some content \<Longrightarrow> copy_loop J plugin root fs ps file = Some content"
  by (induction ps arbitrary: fs) (auto simp: checkAndCopy_keeps)

lemma checkAndCopy_frame:
  "file \<noteq> J [root, p, ''build.gradle''] \<Longrightarrow> checkAndCopy J plugin fs p root file = fs file"
  by (auto simp: checkAndCopy_def Let_def existsSync_def shell_cp_f_def split: option.splits)

lemma copy_loop_frame:
  "\<forall>sub. file \<noteq> J [root, sub, ''build.gradle''] \<Longrightarrow> copy_loop J plugin root fs ps file = fs file"
  by (induction ps arbitrary: fs) (auto simp: checkAndCopy_frame)

lemma extract_keeps:
  assumes "extractRealProjectNameFromManifest J root fs = Inr name"
  shows "extractRealProjectNameFromManifest J root (copy_loop J plugin root fs ps) = Inr name"
proof -
  from assms obtain manifestData where "fs (J [root, ''AndroidManifest.xml'']) = Some manifestData"
    by (auto simp: extractRealProjectNameFromManifest_def readFileSync_def Let_def
             split: option.splits)
  then have "copy_loop J plugin root fs ps (J [root, ''AndroidManifest.xml'']) =
             fs (J [root, ''AndroidManifest.xml''])"
    by (simp add: copy_loop_keeps)
  then show ?thesis using assms
    by (simp add: extractRealProjectNameFromManifest_def readFileSync_def)
qed

lemma prepBuildFiles_settings:
  assumes "readProjectProperties J root fs = Inr propertiesObj"
    and "extractRealProjectNameFromManifest J root fs = Inr name"
    and "J [root, ''settings.gradle''] \<noteq> J [root, ''build.gradle'']"
  shows "snd (prepBuildFiles J root fs) (J [root, ''settings.gradle'']) =
         Some (settings_gradle name (libs propertiesObj))"
  using assms extract_keeps[OF assms(2)]
  by (auto simp: prepBuildFiles_def Let_def writeFileSync_def split: sum.splits)



lemma prepBuildFiles_frame:
  assumes "file \<noteq> J [root, ''settings.gradle'']" "file \<noteq> J [root, ''build.gradle'']"
    and "\<forall>sub. file \<noteq> J [root, sub, ''build.gradle'']"
  shows "snd (prepBuildFiles J root fs) file = fs file"
  using assms copy_loop_frame[OF assms(3)]
  by (auto simp: prepBuildFiles_def Let_def writeFileSync_def split: sum.splits)

lemma stripped_iff:
  "indexOf (realDir p) (name @ ''-'') \<noteq> - 1 \<longleftrightarrow> libName name p \<noteq> realDir p"
proof (cases "split_first (name @ ''-'') (realDir p)")
  case None
  then have "\<not> sublist (name @ ''-'') (realDir p)" by (simp add: split_first_None_iff)
  then show ?thesis using None
    by (simp add: indexOf_absent_iff libName_def js_replace_def string_pattern_def)
next
  case (Some ar)
  obtain a r where ar: "ar = (a, r)" by (cases ar)
  have ne: "name @ ''-'' \<noteq> []" by simp
  from Some ar split_first_iff[OF ne, of "realDir p" a r]
  have rd: "realDir p = a @ (name @ ''-'') @ r" by simp
  then have "sublist (name @ ''-'') (realDir p)" by (metis sublist_appendI)
  moreover have "libName name p = a @ r"
    using Some ar by (simp add: libName_def js_replace_def string_pattern_def)
  ultimately show ?thesis using rd by (simp add: indexOf_absent_iff)
qed


section \<open>Facts about the signing properties\<close>

lemma isAutoGenerated_same_file:
  "fs1 f = fs2 f \<Longrightarrow> isAutoGenerated fs1 f = isAutoGenerated fs2 f"
  by (simp add: isAutoGenerated_def existsSync_def readFileSync_def)

lemma isAutoGenerated_positive_offset:
  "isAutoGenerated fs f \<Longrightarrow> \<exists>content i. fs f = Some content \<and> 0 < i \<and> occurs_at MARKER content i"
proof -
  assume "isAutoGenerated fs f"
  then obtain content where c: "fs f = Some content" "sublist MARKER content" "\<not> prefix MARKER content"
    by (auto simp: isAutoGenerated_iff)
  then obtain i where i: "occurs_at MARKER content i" by (auto simp: sublist_iff_occurs_at)
  with c(3) have "0 < i" by (metis gr0I occurs_at_zero)
  with c(1) i show ?thesis by blast
qed

lemma prepEnv_signing_properties:
  assumes "packageInfo opts = None"
    and "sp = J [root, buildType opts @ SIGNING_PROPERTIES]"
    and "sp \<noteq> J [root, ''settings.gradle'']" and "sp \<noteq> J [root, ''build.gradle'']"
    and "\<forall>sub. sp \<noteq> J [root, sub, ''build.gradle'']"
    and "sp \<noteq> J [root, ''gradle'', ''wrapper'', ''gradle-wrapper.properties'']"
  shows "snd (prepEnv J sed root opts fs) sp = fs sp \<or>
         (isAutoGenerated fs sp \<and> snd (prepEnv J sed root opts fs) sp = None)"
proof -
  obtain res fs1 where p: "prepBuildFiles J root fs = (res, fs1)" by (cases "prepBuildFiles J root fs")
  have f1: "fs1 sp = fs sp"
    using prepBuildFiles_frame[OF assms(3) assms(4) assms(5), of fs] p by simp
  show ?thesis
  proof (cases res)
    case (Inl e)
    with p f1 show ?thesis by (simp add: prepEnv_def)
  next
    case (Inr u)
    define fs2 where "fs2 = shell_sed_i sed fs1 (J [root, ''gradle'', ''wrapper'', ''gradle-wrapper.properties''])"
    have f2: "fs2 sp = fs sp"
      using f1 assms(6) by (simp add: fs2_def shell_sed_i_def split: option.splits)
    then have a: "isAutoGenerated fs2 sp = isAutoGenerated fs sp" by (rule isAutoGenerated_same_file)
    have "snd (prepEnv J sed root opts fs) =
          (if isAutoGenerated fs2 sp then shell_rm_f fs2 sp else fs2)"
      using p Inr assms(1) assms(2) by (simp add: prepEnv_def Let_def fs2_def)
    then show ?thesis using f2 a by (simp add: shell_rm_f_def)
  qed
qed

lemma clean_config_step:
  "clean_config J root fs config f = fs f \<or>
   (isAutoGenerated fs f \<and> clean_config J root fs config f = None)"
  by (auto simp: clean_config_def Let_def shell_rm_f_def)

lemma clean_signing_properties:
  assumes "\<not> inside (J [root, ''out'']) f"
  shows "clean J inside root fs f = fs f \<or> (isAutoGenerated fs f \<and> clean J inside root fs f = None)"
proof -
  define fs1 where "fs1 = shell_rm_rf inside fs (J [root, ''out''])"
  define fs2 where "fs2 = clean_config J root fs1 ''debug''"
  define fs3 where "fs3 = clean_config J root fs2 ''release''"
  have c: "clean J inside root fs = fs3" by (simp add: clean_def fs1_def fs2_def fs3_def)
  have 1: "fs1 f = fs f" using assms by (simp add: fs1_def shell_rm_rf_def)
  then have a1: "isAutoGenerated fs1 f = isAutoGenerated fs f" by (rule isAutoGenerated_same_file)
  have 2: "fs2 f = fs1 f \<or> (isAutoGenerated fs1 f \<and> fs2 f = None)"
    unfolding fs2_def by (rule clean_config_step)
  have 3: "fs3 f = fs2 f \<or> (isAutoGenerated fs2 f \<and> fs3 f = None)"
    unfolding fs3_def by (rule clean_config_step)
  have n: "\<not> isAutoGenerated fs2 f" if "fs2 f = None"
    using that by (simp add: isAutoGenerated_def existsSync_def)
  show ?thesis
  proof (cases "fs2 f = fs1 f")
    case True
    then have "isAutoGenerated fs2 f = isAutoGenerated fs f"
      using 1 isAutoGenerated_same_file by metis
    with True 1 3 c show ?thesis by auto
  next
    case False
    with 2 have "isAutoGenerated fs1 f" "fs2 f = None" by auto
    with 3 n a1 c show ?thesis by auto
  qed
qed

lemma join_slash_build_gradle_differs:
  "''/r/debug-signing.properties'' \<noteq> join_slash [''r'', sub, ''build.gradle'']"
proof
  assume "''/r/debug-signing.properties'' = join_slash [''r'', sub, ''build.gradle'']"
  then have "last ''/r/debug-signing.properties'' = last (join_slash [''r'', sub, ''build.gradle''])"
    by (rule arg_cong)
  then show False by (simp add: join_slash_def)
qed

lemma indexOf_TEMPLATE: "indexOf (TEMPLATE @ payload) MARKER = 69"
  by (simp add: TEMPLATE_def MARKER_def)

lemma prepEnv_writes_signing_properties:
  assumes "packageInfo opts = Some payload" and "fst (prepEnv J sed root opts fs) = Inr ()"
  shows "snd (prepEnv J sed root opts fs) (J [root, buildType opts @ SIGNING_PROPERTIES]) =
         Some (TEMPLATE @ payload)"
  using assms
  by (auto simp: prepEnv_def Let_def writeFileSync_def split: prod.splits sum.splits)

section \<open>Facts about replacing a marker region\<close>

lemma get_substitution_plain_append:
  "CHR ''$'' \<notin> set t \<Longrightarrow>
   get_substitution m p q caps (t @ u) = t @ get_substitution m p q caps u"
proof (induction t)
  case Nil
  then show ?case by simp
next
  case (Cons c t')
  then have c: "c \<noteq> CHR ''$''" and IH: "get_substitution m p q caps (t' @ u) = t' @ get_substitution m p q caps u"
    by auto
  show ?case
  proof (cases "t' @ u")
    case Nil
    then show ?thesis by simp
  next
    case (Cons d rest)
    have "get_substitution m p q caps (c # d # rest) = c # get_substitution m p q caps (d # rest)"
      using c by simp
    with Cons IH show ?thesis by simp
  qed
qed

lemma get_substitution_plain:
  "CHR ''$'' \<notin> set t \<Longrightarrow> get_substitution m p q caps t = t"
  using get_substitution_plain_append[of t m p q caps "[]"] by simp

lemma get_substitution_first_capture:
  "get_substitution m p q [S, E] (''$1\<newline>'' @ u) = S @ ''\<newline>'' @ get_substitution m p q [S, E] u"
proof -
  have "get_substitution m p q [S, E] (CHR ''$'' # CHR ''1'' # CHR ''\<newline>'' # u) =
        S @ get_substitution m p q [S, E] (CHR ''\<newline>'' # u)"
    by (simp add: capture_ref_def is_digit_def digit_val_def)
  moreover have "get_substitution m p q [S, E] (''\<newline>'' @ u) = ''\<newline>'' @ get_substitution m p q [S, E] u"
    by (rule get_substitution_plain_append) simp
  ultimately show ?thesis by simp
qed

lemma get_substitution_second_capture:
  "get_substitution m p q [S, E] ''$2'' = E"
  by (simp add: capture_ref_def is_digit_def digit_val_def)

lemma get_substitution_marker_template:
  assumes "CHR ''$'' \<notin> set x" and "CHR ''$'' \<notin> set pad"
  shows "get_substitution m p q [S, E] (''$1\<newline>'' @ x @ pad @ ''$2'') = S @ ''\<newline>'' @ x @ pad @ E"
proof -
  have "CHR ''$'' \<notin> set (x @ pad)" using assms by simp
  then have "get_substitution m p q [S, E] ((x @ pad) @ ''$2'') =
             (x @ pad) @ get_substitution m p q [S, E] ''$2''"
    by (rule get_substitution_plain_append)
  then show ?thesis
    using get_substitution_first_capture[of m p q S E "x @ pad @ ''$2''"]
    by (simp add: get_substitution_second_capture del: get_substitution.simps)
qed

lemma marker_rx_match:
  assumes "S \<noteq> []" and "E \<noteq> []"
    and "\<not> sublist S (P @ butlast S)" and "\<not> sublist E (tl E @ Q)"
  shows "marker_rx S E (P @ S @ B @ E @ Q) =
         Some \<lparr>m_before = P, m_matched = S @ B @ E, m_captures = [S, E], m_after = Q\<rparr>"
proof -
  have "split_first S (P @ S @ B @ E @ Q) = Some (P, B @ E @ Q)"
    using assms(1) assms(3) by (simp add: split_first_iff)
  moreover have "split_last E (B @ E @ Q) = Some (B, Q)"
    using assms(2) assms(4) by (simp add: split_last_iff)
  ultimately show ?thesis by (simp add: marker_rx_def)
qed

lemma replace_marker_region:
  assumes "S \<noteq> []" and "E \<noteq> []"
    and "\<not> sublist S (P @ butlast S)" and "\<not> sublist E (tl E @ Q)"
    and "CHR ''$'' \<notin> set x" and "CHR ''$'' \<notin> set pad"
  shows "js_replace (marker_rx S E) (''$1\<newline>'' @ x @ pad @ ''$2'') (P @ S @ B @ E @ Q) =
         P @ S @ ''\<newline>'' @ x @ pad @ E @ Q"
  using marker_rx_match[OF assms(1-4), of B] get_substitution_marker_template[OF assms(5) assms(6)]
  by (simp add: js_replace_def del: get_substitution.simps)

lemma sublist_barrier:
  assumes "c \<notin> set pat"
  shows "sublist pat (u @ c # v) \<longleftrightarrow> sublist pat u \<or> sublist pat v"
proof
  assume "sublist pat (u @ c # v)"
  then consider "sublist pat u" | "sublist pat (c # v)"
    | xs1 xs2 where "pat = xs1 @ xs2" "suffix xs1 u" "prefix xs2 (c # v)"
    by (auto simp: sublist_append)
  then show "sublist pat u \<or> sublist pat v"
  proof cases
    case 1
    then show ?thesis by simp
  next
    case 2
    then have "prefix pat (c # v) \<or> sublist pat v" by (simp add: sublist_Cons_right)
    moreover have "\<not> prefix pat (c # v) \<or> pat = []" using assms by (cases pat) auto
    ultimately show ?thesis by auto
  next
    case 3
    show ?thesis
    proof (cases xs2)
      case Nil
      with 3 have "suffix pat u" by simp
      then show ?thesis by (meson suffix_imp_sublist)
    next
      case (Cons y ys)
      with 3 have "y = c" by simp
      with Cons 3(1) assms show ?thesis by simp
    qed
  qed
next
  assume "sublist pat u \<or> sublist pat v"
  then show "sublist pat (u @ c # v)"
    by (metis sublist_append sublist_Cons_right)
qed

lemma sublist_skip:
  assumes "pat \<noteq> []" and "hd pat \<noteq> c"
  shows "sublist pat (c # v) \<longleftrightarrow> sublist pat v"
  using assms by (cases pat) (auto simp: sublist_Cons_right)

lemma not_sublist_mono:
  "\<not> sublist pat v \<Longrightarrow> sublist u v \<Longrightarrow> \<not> sublist pat u"
  using sublist_order.order.trans by blast

lemma not_sublist_prefix_part: "\<not> sublist pat (u @ w) \<Longrightarrow> \<not> sublist pat u"
  by (simp add: sublist_append)

lemma not_sublist_suffix_part: "\<not> sublist pat (w @ v) \<Longrightarrow> \<not> sublist pat v"
  by (simp add: sublist_append)

lemma not_sublist_spaces:
  assumes "pat \<noteq> []" and "hd pat \<noteq> CHR '' ''" and "set pad \<subseteq> {CHR '' ''}"
  shows "sublist pat (pad @ v) \<longleftrightarrow> sublist pat v"
  using assms(3)
proof (induction pad)
  case Nil
  then show ?case by simp
next
  case (Cons c pad)
  then have "c = CHR '' ''" by simp
  then have "sublist pat (c # pad @ v) \<longleftrightarrow> sublist pat (pad @ v)"
    using sublist_skip[OF assms(1), of c "pad @ v"] assms(2) by simp
  with Cons show ?case by simp
qed

lemma not_sublist_generated:
  assumes "CHR ''\<newline>'' \<notin> set pat" and "pat \<noteq> []" and "hd pat \<noteq> CHR '' ''"
    and "set pad \<subseteq> {CHR '' ''}"
    and "whole_lines x" and "\<not> sublist pat x" and "\<not> sublist pat u" and "\<not> sublist pat v"
  shows "\<not> sublist pat (u @ ''\<newline>'' @ x @ pad @ v)"
proof -
  have pv: "\<not> sublist pat (pad @ v)"
    using not_sublist_spaces[OF assms(2) assms(3) assms(4)] assms(8) by simp
  have xv: "\<not> sublist pat (x @ pad @ v)"
  proof (cases "x = []")
    case True
    with pv show ?thesis by simp
  next
    case False
    with assms(5) have l: "last x = CHR ''\<newline>''" by (simp add: whole_lines_def)
    from False have x: "x = butlast x @ [last x]" by simp
    have "sublist (butlast x) x" by simp
    with assms(6) have b: "\<not> sublist pat (butlast x)" by (rule not_sublist_mono)
    have e: "x @ pad @ v = butlast x @ CHR ''\<newline>'' # (pad @ v)"
      using x l by (metis append_Cons append_Nil append_assoc)
    have "\<not> sublist pat (butlast x @ CHR ''\<newline>'' # (pad @ v))"
      using sublist_barrier[OF assms(1), of "butlast x" "pad @ v"] b pv by simp
    then show ?thesis unfolding e .
  qed
  have "u @ ''\<newline>'' @ x @ pad @ v = u @ CHR ''\<newline>'' # (x @ pad @ v)" by simp
  then show ?thesis using sublist_barrier[OF assms(1), of u "x @ pad @ v"] assms(7) xv by simp
qed

lemma markers_facts:
  "SUB_PROJECT_DEPENDENCIES_START \<noteq> []" "SUB_PROJECT_DEPENDENCIES_END \<noteq> []"
  "PLUGIN_GRADLE_EXTENSIONS_START \<noteq> []" "PLUGIN_GRADLE_EXTENSIONS_END \<noteq> []"
  "CHR ''\<newline>'' \<notin> set SUB_PROJECT_DEPENDENCIES_START" "CHR ''\<newline>'' \<notin> set SUB_PROJECT_DEPENDENCIES_END"
  "CHR ''\<newline>'' \<notin> set PLUGIN_GRADLE_EXTENSIONS_START" "CHR ''\<newline>'' \<notin> set PLUGIN_GRADLE_EXTENSIONS_END"
  "hd SUB_PROJECT_DEPENDENCIES_START \<noteq> CHR '' ''" "hd SUB_PROJECT_DEPENDENCIES_END \<noteq> CHR '' ''"
  "hd PLUGIN_GRADLE_EXTENSIONS_START \<noteq> CHR '' ''" "hd PLUGIN_GRADLE_EXTENSIONS_END \<noteq> CHR '' ''"
  by (simp_all add: SUB_PROJECT_DEPENDENCIES_START_def SUB_PROJECT_DEPENDENCIES_END_def
        PLUGIN_GRADLE_EXTENSIONS_START_def PLUGIN_GRADLE_EXTENSIONS_END_def)

text \<open>
  Two marker regions that follow one another, \<open>(Sa, Ea)\<close> first: each replacement
  rewrites its own region, whether the other region holds its old text or a generated one.
\<close>

lemma replace_first_region:
  assumes "Sa \<noteq> []" and "Ea \<noteq> []"
    and "no_earlier Sa A" and "\<not> sublist Ea (tl Ea @ C @ Sb @ Bb @ Eb @ F)"
    and "CHR ''$'' \<notin> set xa" and "CHR ''$'' \<notin> set pada"
  shows "js_replace (marker_rx Sa Ea) (''$1\<newline>'' @ xa @ pada @ ''$2'')
           (A @ Sa @ Ba @ Ea @ C @ Sb @ Bb @ Eb @ F) =
         A @ Sa @ ''\<newline>'' @ xa @ pada @ Ea @ C @ Sb @ Bb @ Eb @ F"
  using replace_marker_region[OF assms(1) assms(2) _ assms(4) assms(5) assms(6), of A Ba] assms(3)
  by (simp add: no_earlier_def)

lemma replace_second_region:
  assumes "Sb \<noteq> []" and "Eb \<noteq> []"
    and "\<not> sublist Sb (A @ Sa @ Ba @ Ea @ C @ butlast Sb)" and "no_later Eb F"
    and "CHR ''$'' \<notin> set xb" and "CHR ''$'' \<notin> set padb"
  shows "js_replace (marker_rx Sb Eb) (''$1\<newline>'' @ xb @ padb @ ''$2'')
           (A @ Sa @ Ba @ Ea @ C @ Sb @ Bb @ Eb @ F) =
         A @ Sa @ Ba @ Ea @ C @ Sb @ ''\<newline>'' @ xb @ padb @ Eb @ F"
proof -
  have "\<not> sublist Sb ((A @ Sa @ Ba @ Ea @ C) @ butlast Sb)" using assms(3) by simp
  moreover have "\<not> sublist Eb (tl Eb @ F)" using assms(4) by (simp add: no_later_def)
  ultimately show ?thesis
    using replace_marker_region[OF assms(1) assms(2) _ _ assms(5) assms(6),
            of "A @ Sa @ Ba @ Ea @ C" F Bb]
    by simp
qed

text \<open>The generated text of one region does not hide a marker of the other region.\<close>

lemma later_end_marker_kept:
  assumes "CHR ''\<newline>'' \<notin> set Ea" and "Ea \<noteq> []" and "hd Ea \<noteq> CHR '' ''"
    and "set padb \<subseteq> {CHR '' ''}" and "whole_lines xb" and "\<not> sublist Ea xb"
    and "no_later Ea (C @ Sb @ Bb @ Eb @ F)"
  shows "\<not> sublist Ea (tl Ea @ C @ Sb @ (''\<newline>'' @ xb @ padb) @ Eb @ F)"
proof -
  have n: "\<not> sublist Ea (tl Ea @ C @ Sb @ Bb @ Eb @ F)" using assms(7) by (simp add: no_later_def)
  have u: "\<not> sublist Ea (tl Ea @ C @ Sb)"
    using n not_sublist_prefix_part[of Ea "tl Ea @ C @ Sb" "Bb @ Eb @ F"] by simp
  have v: "\<not> sublist Ea (Eb @ F)"
    using n not_sublist_suffix_part[of Ea "tl Ea @ C @ Sb @ Bb" "Eb @ F"] by simp
  show ?thesis
    using not_sublist_generated[OF assms(1) assms(2) assms(3) assms(4) assms(5) assms(6) u v]
    by simp
qed

lemma earlier_start_marker_kept:
  assumes "CHR ''\<newline>'' \<notin> set Sb" and "Sb \<noteq> []" and "hd Sb \<noteq> CHR '' ''"
    and "set pada \<subseteq> {CHR '' ''}" and "whole_lines xa" and "\<not> sublist Sb xa"
    and "no_earlier Sb (A @ Sa @ Ba @ Ea @ C)"
  shows "\<not> sublist Sb (A @ Sa @ (''\<newline>'' @ xa @ pada) @ Ea @ C @ butlast Sb)"
proof -
  have n: "\<not> sublist Sb (A @ Sa @ Ba @ Ea @ C @ butlast Sb)" using assms(7) by (simp add: no_earlier_def)
  have u: "\<not> sublist Sb (A @ Sa)"
    using n not_sublist_prefix_part[of Sb "A @ Sa" "Ba @ Ea @ C @ butlast Sb"] by simp
  have v: "\<not> sublist Sb (Ea @ C @ butlast Sb)"
    using n not_sublist_suffix_part[of Sb "A @ Sa @ Ba" "Ea @ C @ butlast Sb"] by simp
  show ?thesis
    using not_sublist_generated[OF assms(1) assms(2) assms(3) assms(4) assms(5) assms(6) u v]
    by simp
qed

lemma inject_unfold:
  "inject d i b =
   js_replace (marker_rx PLUGIN_GRADLE_EXTENSIONS_START PLUGIN_GRADLE_EXTENSIONS_END)
     (''$1\<newline>'' @ i @ [] @ ''$2'')
     (js_replace (marker_rx SUB_PROJECT_DEPENDENCIES_START SUB_PROJECT_DEPENDENCIES_END)
        (''$1\<newline>'' @ d @ ''    '' @ ''$2'') b)"
  by (simp add: inject_def)

lemma inject_dependencies_first:
  assumes d: "CHR ''$'' \<notin> set d" "whole_lines d" "\<not> sublist PLUGIN_GRADLE_EXTENSIONS_START d"
    and i: "CHR ''$'' \<notin> set i" "whole_lines i" "\<not> sublist SUB_PROJECT_DEPENDENCIES_END i"
    and 1: "no_earlier SUB_PROJECT_DEPENDENCIES_START A"
    and 2: "no_later SUB_PROJECT_DEPENDENCIES_END (C @ PLUGIN_GRADLE_EXTENSIONS_START @ D @ PLUGIN_GRADLE_EXTENSIONS_END @ F)"
    and 3: "no_earlier PLUGIN_GRADLE_EXTENSIONS_START (A @ SUB_PROJECT_DEPENDENCIES_START @ B @ SUB_PROJECT_DEPENDENCIES_END @ C)"
    and 4: "no_later PLUGIN_GRADLE_EXTENSIONS_END F"
  shows "inject d i (A @ SUB_PROJECT_DEPENDENCIES_START @ B @ SUB_PROJECT_DEPENDENCIES_END @ C @
                     PLUGIN_GRADLE_EXTENSIONS_START @ D @ PLUGIN_GRADLE_EXTENSIONS_END @ F) =
         A @ SUB_PROJECT_DEPENDENCIES_START @ (''\<newline>'' @ d @ ''    '') @ SUB_PROJECT_DEPENDENCIES_END @ C @
         PLUGIN_GRADLE_EXTENSIONS_START @ (''\<newline>'' @ i) @ PLUGIN_GRADLE_EXTENSIONS_END @ F"
    and "inject d i (A @ SUB_PROJECT_DEPENDENCIES_START @ (''\<newline>'' @ d @ ''    '') @ SUB_PROJECT_DEPENDENCIES_END @ C @
                     PLUGIN_GRADLE_EXTENSIONS_START @ (''\<newline>'' @ i) @ PLUGIN_GRADLE_EXTENSIONS_END @ F) =
         A @ SUB_PROJECT_DEPENDENCIES_START @ (''\<newline>'' @ d @ ''    '') @ SUB_PROJECT_DEPENDENCIES_END @ C @
         PLUGIN_GRADLE_EXTENSIONS_START @ (''\<newline>'' @ i) @ PLUGIN_GRADLE_EXTENSIONS_END @ F"
proof -
  let ?S1 = SUB_PROJECT_DEPENDENCIES_START and ?E1 = SUB_PROJECT_DEPENDENCIES_END
  let ?S2 = PLUGIN_GRADLE_EXTENSIONS_START and ?E2 = PLUGIN_GRADLE_EXTENSIONS_END
  let ?Ba = "''\<newline>'' @ d @ ''    ''" and ?Bb = "''\<newline>'' @ i @ []"
  have pad: "CHR ''$'' \<notin> set ''    ''" "CHR ''$'' \<notin> set []" "set ''    '' \<subseteq> {CHR '' ''}" "set [] \<subseteq> {CHR '' ''}"
    by simp_all
  have e1: "\<not> sublist ?E1 (tl ?E1 @ C @ ?S2 @ D @ ?E2 @ F)" using 2 by (simp add: no_later_def)
  have e1': "\<not> sublist ?E1 (tl ?E1 @ C @ ?S2 @ ?Bb @ ?E2 @ F)"
    by (rule later_end_marker_kept[OF markers_facts(6) markers_facts(2) markers_facts(10) pad(4) i(2) i(3) 2])
  have s2: "\<not> sublist ?S2 (A @ ?S1 @ ?Ba @ ?E1 @ C @ butlast ?S2)"
    by (rule earlier_start_marker_kept[OF markers_facts(7) markers_facts(3) markers_facts(11) pad(3) d(2) d(3) 3])
  have r1: "js_replace (marker_rx ?S1 ?E1) (''$1\<newline>'' @ d @ ''    '' @ ''$2'')
              (A @ ?S1 @ B @ ?E1 @ C @ ?S2 @ D @ ?E2 @ F) =
            A @ ?S1 @ ''\<newline>'' @ d @ ''    '' @ ?E1 @ C @ ?S2 @ D @ ?E2 @ F"
    by (rule replace_first_region[OF markers_facts(1) markers_facts(2) 1 e1 d(1) pad(1)])
  have r2: "js_replace (marker_rx ?S2 ?E2) (''$1\<newline>'' @ i @ [] @ ''$2'')
              (A @ ?S1 @ ?Ba @ ?E1 @ C @ ?S2 @ Bb @ ?E2 @ F) =
            A @ ?S1 @ ?Ba @ ?E1 @ C @ ?S2 @ ''\<newline>'' @ i @ [] @ ?E2 @ F" for Bb
    by (rule replace_second_region[OF markers_facts(3) markers_facts(4) s2 4 i(1) pad(2)])
  have r3: "js_replace (marker_rx ?S1 ?E1) (''$1\<newline>'' @ d @ ''    '' @ ''$2'')
              (A @ ?S1 @ ?Ba @ ?E1 @ C @ ?S2 @ ?Bb @ ?E2 @ F) =
            A @ ?S1 @ ''\<newline>'' @ d @ ''    '' @ ?E1 @ C @ ?S2 @ ?Bb @ ?E2 @ F"
    by (rule replace_first_region[OF markers_facts(1) markers_facts(2) 1 e1' d(1) pad(1)])
  show "inject d i (A @ ?S1 @ B @ ?E1 @ C @ ?S2 @ D @ ?E2 @ F) =
         A @ ?S1 @ (''\<newline>'' @ d @ ''    '') @ ?E1 @ C @ ?S2 @ (''\<newline>'' @ i) @ ?E2 @ F"
    using r1 r2[of D] by (simp add: inject_unfold)
  show "inject d i (A @ ?S1 @ (''\<newline>'' @ d @ ''    '') @ ?E1 @ C @ ?S2 @ (''\<newline>'' @ i) @ ?E2 @ F) =
         A @ ?S1 @ (''\<newline>'' @ d @ ''    '') @ ?E1 @ C @ ?S2 @ (''\<newline>'' @ i) @ ?E2 @ F"
    using r3 r2[of ?Bb] by (simp add: inject_unfold)
qed

lemma inject_extensions_first:
  assumes d: "CHR ''$'' \<notin> set d" "whole_lines d" "\<not> sublist PLUGIN_GRADLE_EXTENSIONS_END d"
    and i: "CHR ''$'' \<notin> set i" "whole_lines i" "\<not> sublist SUB_PROJECT_DEPENDENCIES_START i"
    and 1: "no_earlier PLUGIN_GRADLE_EXTENSIONS_START A"
    and 2: "no_later PLUGIN_GRADLE_EXTENSIONS_END (C @ SUB_PROJECT_DEPENDENCIES_START @ B @ SUB_PROJECT_DEPENDENCIES_END @ F)"
    and 3: "no_earlier SUB_PROJECT_DEPENDENCIES_START (A @ PLUGIN_GRADLE_EXTENSIONS_START @ D @ PLUGIN_GRADLE_EXTENSIONS_END @ C)"
    and 4: "no_later SUB_PROJECT_DEPENDENCIES_END F"
  shows "inject d i (A @ PLUGIN_GRADLE_EXTENSIONS_START @ D @ PLUGIN_GRADLE_EXTENSIONS_END @ C @
                     SUB_PROJECT_DEPENDENCIES_START @ B @ SUB_PROJECT_DEPENDENCIES_END @ F) =
         A @ PLUGIN_GRADLE_EXTENSIONS_START @ (''\<newline>'' @ i) @ PLUGIN_GRADLE_EXTENSIONS_END @ C @
         SUB_PROJECT_DEPENDENCIES_START @ (''\<newline>'' @ d @ ''    '') @ SUB_PROJECT_DEPENDENCIES_END @ F"
    and "inject d i (A @ PLUGIN_GRADLE_EXTENSIONS_START @ (''\<newline>'' @ i) @ PLUGIN_GRADLE_EXTENSIONS_END @ C @
                     SUB_PROJECT_DEPENDENCIES_START @ (''\<newline>'' @ d @ ''    '') @ SUB_PROJECT_DEPENDENCIES_END @ F) =
         A @ PLUGIN_GRADLE_EXTENSIONS_START @ (''\<newline>'' @ i) @ PLUGIN_GRADLE_EXTENSIONS_END @ C @
         SUB_PROJECT_DEPENDENCIES_START @ (''\<newline>'' @ d @ ''    '') @ SUB_PROJECT_DEPENDENCIES_END @ F"
proof -
  let ?S1 = SUB_PROJECT_DEPENDENCIES_START and ?E1 = SUB_PROJECT_DEPENDENCIES_END
  let ?S2 = PLUGIN_GRADLE_EXTENSIONS_START and ?E2 = PLUGIN_GRADLE_EXTENSIONS_END
  let ?Ba = "''\<newline>'' @ i @ []" and ?Bb = "''\<newline>'' @ d @ ''    ''"
  have pad: "CHR ''$'' \<notin> set ''    ''" "CHR ''$'' \<notin> set []" "set ''    '' \<subseteq> {CHR '' ''}" "set [] \<subseteq> {CHR '' ''}"
    by simp_all
  have e2': "\<not> sublist ?E2 (tl ?E2 @ C @ ?S1 @ ?Bb @ ?E1 @ F)"
    by (rule later_end_marker_kept[OF markers_facts(8) markers_facts(4) markers_facts(12) pad(3) d(2) d(3) 2])
  have s1: "\<not> sublist ?S1 (A @ ?S2 @ D @ ?E2 @ C @ butlast ?S1)" using 3 by (simp add: no_earlier_def)
  have s1': "\<not> sublist ?S1 (A @ ?S2 @ ?Ba @ ?E2 @ C @ butlast ?S1)"
    by (rule earlier_start_marker_kept[OF markers_facts(5) markers_facts(1) markers_facts(9) pad(4) i(2) i(3) 3])
  have rb: "js_replace (marker_rx ?S1 ?E1) (''$1\<newline>'' @ d @ ''    '' @ ''$2'')
              (A @ ?S2 @ D @ ?E2 @ C @ ?S1 @ B @ ?E1 @ F) =
            A @ ?S2 @ D @ ?E2 @ C @ ?S1 @ ''\<newline>'' @ d @ ''    '' @ ?E1 @ F"
    by (rule replace_second_region[OF markers_facts(1) markers_facts(2) s1 4 d(1) pad(1)])
  have rb': "js_replace (marker_rx ?S1 ?E1) (''$1\<newline>'' @ d @ ''    '' @ ''$2'')
              (A @ ?S2 @ ?Ba @ ?E2 @ C @ ?S1 @ ?Bb @ ?E1 @ F) =
            A @ ?S2 @ ?Ba @ ?E2 @ C @ ?S1 @ ''\<newline>'' @ d @ ''    '' @ ?E1 @ F"
    by (rule replace_second_region[OF markers_facts(1) markers_facts(2) s1' 4 d(1) pad(1)])
  have ra: "js_replace (marker_rx ?S2 ?E2) (''$1\<newline>'' @ i @ [] @ ''$2'')
              (A @ ?S2 @ Ba @ ?E2 @ C @ ?S1 @ ?Bb @ ?E1 @ F) =
            A @ ?S2 @ ''\<newline>'' @ i @ [] @ ?E2 @ C @ ?S1 @ ?Bb @ ?E1 @ F" for Ba
    by (rule replace_first_region[OF markers_facts(3) markers_facts(4) 1 e2' i(1) pad(2)])
  show "inject d i (A @ ?S2 @ D @ ?E2 @ C @ ?S1 @ B @ ?E1 @ F) =
         A @ ?S2 @ (''\<newline>'' @ i) @ ?E2 @ C @ ?S1 @ (''\<newline>'' @ d @ ''    '') @ ?E1 @ F"
    using rb ra[of D] by (simp add: inject_unfold)
  show "inject d i (A @ ?S2 @ (''\<newline>'' @ i) @ ?E2 @ C @ ?S1 @ (''\<newline>'' @ d @ ''    '') @ ?E1 @ F) =
         A @ ?S2 @ (''\<newline>'' @ i) @ ?E2 @ C @ ?S1 @ (''\<newline>'' @ d @ ''    '') @ ?E1 @ F"
    using rb' ra[of ?Ba] by (simp add: inject_unfold)
qed

lemma whole_lines_append: "whole_lines x \<Longrightarrow> whole_lines y \<Longrightarrow> whole_lines (x @ y)"
  by (cases "y = []") (auto simp: whole_lines_def)

lemma whole_lines_snoc: "whole_lines (x @ y @ ''\<newline>'')"
  by (simp add: whole_lines_def)

lemma whole_lines_includeList_of: "whole_lines (includeList_of includePaths)"
proof (induction includePaths)
  case Nil
  then show ?case by (simp add: includeList_of_def whole_lines_def)
next
  case (Cons p ps)
  have l: \<open>whole_lines (''apply from: "'' @ p @ ''"\<newline>'')\<close> by (simp add: whole_lines_def)
  have e: \<open>includeList_of (p # ps) = (''apply from: "'' @ p @ ''"\<newline>'') @ includeList_of ps\<close>
    by (simp add: includeList_of_def)
  show ?case unfolding e by (rule whole_lines_append[OF l Cons.IH])
qed

lemma whole_lines_systemLibs_forEach:
  "systemLibs_forEach table ps d = Inr d' \<Longrightarrow> whole_lines d \<Longrightarrow> whole_lines d'"
proof (induction ps arbitrary: d)
  case Nil
  then show ?case by simp
next
  case (Cons p ps)
  from Cons.prems(1) obtain r where r: "mavenRef table p = Inr r"
    and rec: \<open>systemLibs_forEach table ps (d @ ''    compile "'' @ r @ ''"\<newline>'') = Inr d'\<close>
    by (auto split: sum.splits)
  have \<open>whole_lines (d @ ''    compile "'' @ r @ ''"\<newline>'')\<close> by (simp add: whole_lines_def)
  with Cons.IH rec show ?case by blast
qed

lemma whole_lines_subProjects_forEach:
  "subProjects_forEach J root fs name ps d = Inr d' \<Longrightarrow> whole_lines d \<Longrightarrow> whole_lines d'"
proof (induction ps arbitrary: d)
  case Nil
  then show ?case by simp
next
  case (Cons p ps)
  from Cons.prems(1) obtain d1 where
    ins: \<open>insertExclude J root fs (d @ ''    implementation(project(path: "'' @ libName name p @ ''"))'') p = Inr d1\<close>
    and rec: "subProjects_forEach J root fs name ps d1 = Inr d'"
    by (auto split: sum.splits)
  from ins have "whole_lines d1"
    by (auto simp: insertExclude_def whole_lines_def split: sum.splits if_splits)
  with Cons.IH rec show ?case by blast
qed

section \<open>Claims about the marker test\<close>

text \<open>
  C8 (as amended). \<open>isAutoGenerated\<close> holds for a path exactly when the file exists, its
  content holds the marker phrase at some strictly positive offset, and the content does
  not begin with the marker phrase: the test reads the offset of the first occurrence.
\<close>

theorem isAutoGenerated_first_occurrence:
  "isAutoGenerated fs file \<longleftrightarrow>
     (\<exists>content. fs file = Some content \<and>
        (\<exists>i. 0 < i \<and> occurs_at MARKER content i) \<and> \<not> occurs_at MARKER content 0)"
proof -
  have "sublist MARKER content \<and> \<not> prefix MARKER content \<longleftrightarrow>
        (\<exists>i. 0 < i \<and> occurs_at MARKER content i) \<and> \<not> occurs_at MARKER content 0" for content
  proof -
    have "(\<exists>i. occurs_at MARKER content i) \<and> \<not> occurs_at MARKER content 0 \<longleftrightarrow>
          (\<exists>i. 0 < i \<and> occurs_at MARKER content i) \<and> \<not> occurs_at MARKER content 0"
      by (metis gr0I)
    then show ?thesis by (simp add: sublist_iff_occurs_at occurs_at_zero)
  qed
  then show ?thesis by (simp add: isAutoGenerated_iff)
qed

text \<open>
  C8 (as stated) fails: a file that holds the marker phrase twice, at offset 0 and again
  at offset 28, holds it at a strictly positive offset and is not auto-generated.
\<close>

theorem isAutoGenerated_later_offset_counterexample:
  "[''f'' \<mapsto> MARKER @ MARKER] ''f'' = Some (MARKER @ MARKER) \<and>
   occurs_at MARKER (MARKER @ MARKER) 28 \<and>
   \<not> isAutoGenerated [''f'' \<mapsto> MARKER @ MARKER] ''f''"
  by (simp add: isAutoGenerated_iff occurs_at_def MARKER_def)

text \<open>
  C10. In \<open>TEMPLATE\<close> followed by any payload the marker phrase first occurs at offset
  69, inside the template, so a file with this content is auto-generated; and this is
  the content of the signing-properties file of the build type after \<open>prepEnv\<close> has
  run with a \<open>packageInfo\<close>, which makes that file auto-generated.
\<close>

theorem written_signing_properties_isAutoGenerated:
  "indexOf (TEMPLATE @ payload) MARKER = 69 \<and>
   isAutoGenerated (writeFileSync fs file (TEMPLATE @ payload)) file \<and>
   (packageInfo opts = Some payload \<and> fst (prepEnv J sed root opts fs) = Inr ()
      \<longrightarrow> snd (prepEnv J sed root opts fs) (J [root, buildType opts @ SIGNING_PROPERTIES]) =
             Some (TEMPLATE @ payload) \<and>
           isAutoGenerated (snd (prepEnv J sed root opts fs))
             (J [root, buildType opts @ SIGNING_PROPERTIES]))"
proof (intro conjI impI)
  show "indexOf (TEMPLATE @ payload) MARKER = 69" by (rule indexOf_TEMPLATE)
  show "isAutoGenerated (writeFileSync fs file (TEMPLATE @ payload)) file"
    by (simp add: isAutoGenerated_iff writeFileSync_def MARKER_in_TEMPLATE TEMPLATE_not_MARKER_first)
next
  assume h: "packageInfo opts = Some payload \<and> fst (prepEnv J sed root opts fs) = Inr ()"
  then show w: "snd (prepEnv J sed root opts fs) (J [root, buildType opts @ SIGNING_PROPERTIES]) =
             Some (TEMPLATE @ payload)"
    using prepEnv_writes_signing_properties by blast
  then show "isAutoGenerated (snd (prepEnv J sed root opts fs))
             (J [root, buildType opts @ SIGNING_PROPERTIES])"
    by (simp add: isAutoGenerated_iff MARKER_in_TEMPLATE TEMPLATE_not_MARKER_first)
qed

text \<open>The example project, prepared for \<open>release\<close> with a keystore line as payload.\<close>

theorem written_signing_properties_isAutoGenerated_witness:
  "packageInfo \<lparr>buildType = ''release'', packageInfo = Some ''storeFile=release.keystore\<newline>''\<rparr> =
     Some ''storeFile=release.keystore\<newline>'' \<and>
   fst (prepEnv join_slash (\<lambda>content. content) ''r''
          \<lparr>buildType = ''release'', packageInfo = Some ''storeFile=release.keystore\<newline>''\<rparr> example_fs) = Inr () \<and>
   snd (prepEnv join_slash (\<lambda>content. content) ''r''
          \<lparr>buildType = ''release'', packageInfo = Some ''storeFile=release.keystore\<newline>''\<rparr> example_fs)
       (join_slash [''r'', buildType \<lparr>buildType = ''release'', packageInfo = Some ''storeFile=release.keystore\<newline>''\<rparr> @ SIGNING_PROPERTIES]) =
     Some (TEMPLATE @ ''storeFile=release.keystore\<newline>'') \<and>
   isAutoGenerated
     (snd (prepEnv join_slash (\<lambda>content. content) ''r''
          \<lparr>buildType = ''release'', packageInfo = Some ''storeFile=release.keystore\<newline>''\<rparr> example_fs))
     (join_slash [''r'', buildType \<lparr>buildType = ''release'', packageInfo = Some ''storeFile=release.keystore\<newline>''\<rparr> @ SIGNING_PROPERTIES])"
proof -
  let ?opts = "\<lparr>buildType = ''release'', packageInfo = Some ''storeFile=release.keystore\<newline>''\<rparr>"
  have h1: "packageInfo ?opts = Some ''storeFile=release.keystore\<newline>''" by simp
  have h2: "fst (prepEnv join_slash (\<lambda>content. content) ''r'' ?opts example_fs) = Inr ()"
    by code_simp
  note t = written_signing_properties_isAutoGenerated[where opts = ?opts
      and payload = "''storeFile=release.keystore\<newline>''" and J = join_slash
      and sed = "\<lambda>content. content" and root = "''r''" and fs = example_fs]
  note c = mp[OF conjunct2[OF conjunct2[OF t]] conjI[OF h1 h2]]
  show ?thesis by (rule conjI[OF h1 conjI[OF h2 c]])
qed

section \<open>Claims about module names\<close>

text \<open>
  C5. The module name is the path with its separators turned into colons and with the
  leftmost occurrence of the host name followed by a hyphen cut out; a path in which the
  host name followed by a hyphen does not occur keeps its canonical form. Under the host
  \<open>myapp\<close>, \<open>myapp-core-lib\<close> becomes \<open>core-lib\<close> and \<open>unrelated-lib\<close> stays as it is.
\<close>

theorem libName_strips_first_occurrence:
  "(\<forall>a b. realDir p = a @ (name @ ''-'') @ b \<and> \<not> sublist (name @ ''-'') (a @ name)
          \<longrightarrow> libName name p = a @ b) \<and>
   (\<not> sublist (name @ ''-'') (realDir p) \<longrightarrow> libName name p = realDir p) \<and>
   libName ''myapp'' ''myapp-core-lib'' = ''core-lib'' \<and>
   libName ''myapp'' ''unrelated-lib'' = ''unrelated-lib''"
proof (intro conjI allI impI)
  fix a b
  assume h: "realDir p = a @ (name @ ''-'') @ b \<and> \<not> sublist (name @ ''-'') (a @ name)"
  have ne: "name @ ''-'' \<noteq> []" by simp
  have "split_first (name @ ''-'') (realDir p) = Some (a, b)"
    using h split_first_iff[OF ne, of "realDir p" a b] by simp
  then show "libName name p = a @ b"
    by (simp add: libName_def js_replace_def string_pattern_def)
next
  assume "\<not> sublist (name @ ''-'') (realDir p)"
  then have "split_first (name @ ''-'') (realDir p) = None"
    by (simp add: split_first_None_iff)
  then show "libName name p = realDir p"
    by (simp add: libName_def js_replace_def string_pattern_def)
next
  show "libName ''myapp'' ''myapp-core-lib'' = ''core-lib''"
    by (simp add: libName_def js_replace_def string_pattern_def realDir_def)
next
  show "libName ''myapp'' ''unrelated-lib'' = ''unrelated-lib''"
    by (simp add: libName_def js_replace_def string_pattern_def realDir_def)
qed

text \<open>The leftmost occurrence only: the second \<open>myapp-\<close> stays.\<close>

theorem libName_strips_first_occurrence_witness:
  "realDir ''libs/myapp-myapp-x'' = ''libs:'' @ (''myapp'' @ ''-'') @ ''myapp-x'' \<and>
   \<not> sublist (''myapp'' @ ''-'') (''libs:'' @ ''myapp'') \<and>
   libName ''myapp'' ''libs/myapp-myapp-x'' = ''libs:'' @ ''myapp-x'' \<and>
   \<not> sublist (''myapp'' @ ''-'') (realDir ''myappcore/lib'') \<and>
   libName ''myapp'' ''myappcore/lib'' = realDir ''myappcore/lib''"
proof -
  have h1: "realDir ''libs/myapp-myapp-x'' = ''libs:'' @ (''myapp'' @ ''-'') @ ''myapp-x''"
    by (simp add: realDir_def)
  have h2: "\<not> sublist (''myapp'' @ ''-'') (''libs:'' @ ''myapp'')"
    by (simp add: sublist_code)
  have h3: "\<not> sublist (''myapp'' @ ''-'') (realDir ''myappcore/lib'')"
    by (simp add: realDir_def sublist_code)
  from libName_strips_first_occurrence[of "''libs/myapp-myapp-x''" "''myapp''"] h1 h2
  have c1: "libName ''myapp'' ''libs/myapp-myapp-x'' = ''libs:'' @ ''myapp-x''" by blast
  from libName_strips_first_occurrence[of "''myappcore/lib''" "''myapp''"] h3
  have c2: "libName ''myapp'' ''myappcore/lib'' = realDir ''myappcore/lib''" by blast
  from h1 h2 h3 c1 c2 show ?thesis by blast
qed

section \<open>Claims about system libraries\<close>

text \<open>
  C3. For a value \<open>p\<close> that the parser has read: with two colons or more \<open>mavenRef\<close>
  returns \<open>p\<close> itself, whatever the table; with fewer, the first pair of the table whose
  expression matches gives the result, by its template, whatever the pairs after it; for
  the table of the builder these are the support rule and then the play-services rule.
\<close>

theorem mavenRef_first_match:
  assumes "p \<in> set (findAllUniq data key)"
  shows "(2 \<le> count_list p CHR '':'' \<longrightarrow> mavenRef table p = Inr p) \<and>
         (count_list p CHR '':'' < 2 \<and> table = earlier @ (rx, template) # later \<and>
          (\<forall>pair \<in> set earlier. fst pair p = None) \<and> rx p \<noteq> None \<and>
          js_replace rx template p \<noteq> []
            \<longrightarrow> mavenRef table p = Inr (js_replace rx template p)) \<and>
         (count_list p CHR '':'' < 2 \<and> rx_support p = Some m
            \<longrightarrow> mavenRef SYSTEM_LIBRARY_MAPPINGS p =
                 Inr (''com.android.support:support-'' @ hd (m_captures m) @ '':+'')) \<and>
         (count_list p CHR '':'' < 2 \<and> rx_support p = None \<and> rx_play_services p \<noteq> None
            \<longrightarrow> mavenRef SYSTEM_LIBRARY_MAPPINGS p = Inr ''com.google.android.gms:play-services:+'')"
proof (intro conjI impI)
  assume "2 \<le> count_list p CHR '':''"
  then have "two_colons p"
    using assms findAllUniq_no_line_terminator count_two_colons by blast
  then show "mavenRef table p = Inr p" by (simp add: mavenRef_def)
next
  assume h: "count_list p CHR '':'' < 2 \<and> table = earlier @ (rx, template) # later \<and>
          (\<forall>pair \<in> set earlier. fst pair p = None) \<and> rx p \<noteq> None \<and>
          js_replace rx template p \<noteq> []"
  then have "\<not> two_colons p" using two_colons_count by fastforce
  moreover have "mappings_loop table p = Some (js_replace rx template p)"
    using h mappings_loop_first by blast
  ultimately show "mavenRef table p = Inr (js_replace rx template p)"
    using h by (simp add: mavenRef_def)
next
  assume h: "count_list p CHR '':'' < 2 \<and> rx_support p = Some m"
  then have "\<not> two_colons p" using two_colons_count by fastforce
  moreover have "mappings_loop SYSTEM_LIBRARY_MAPPINGS p =
                 Some (''com.android.support:support-'' @ hd (m_captures m) @ '':+'')"
    using h js_replace_rx_support[of p m] by (simp add: SYSTEM_LIBRARY_MAPPINGS_def)
  ultimately show "mavenRef SYSTEM_LIBRARY_MAPPINGS p =
                 Inr (''com.android.support:support-'' @ hd (m_captures m) @ '':+'')"
    by (simp add: mavenRef_def)
next
  assume h: "count_list p CHR '':'' < 2 \<and> rx_support p = None \<and> rx_play_services p \<noteq> None"
  then have "\<not> two_colons p" using two_colons_count by fastforce
  moreover from h obtain m' where "rx_play_services p = Some m'" by auto
  then have "mappings_loop SYSTEM_LIBRARY_MAPPINGS p = Some ''com.google.android.gms:play-services:+''"
    using h js_replace_rx_play_services[of p m'] by (simp add: SYSTEM_LIBRARY_MAPPINGS_def)
  ultimately show "mavenRef SYSTEM_LIBRARY_MAPPINGS p = Inr ''com.google.android.gms:play-services:+''"
    by (simp add: mavenRef_def)
qed

text \<open>
  A rule that would also match, placed after the support rule, never decides: with the
  pattern \<open>rx_support\<close> twice in the table the first template gives the coordinate.
\<close>

theorem mavenRef_first_match_witness:
  "''extras/android/support/v4'' \<in> set (findAllUniq
      ''cordova.system.library.1=extras/android/support/v4\<newline>cordova.system.library.2=a:b:c''
      ''cordova.system.library.'') \<and>
   ''a:b:c'' \<in> set (findAllUniq
      ''cordova.system.library.1=extras/android/support/v4\<newline>cordova.system.library.2=a:b:c''
      ''cordova.system.library.'') \<and>
   mavenRef [] ''a:b:c'' = Inr ''a:b:c'' \<and>
   mavenRef [(rx_play_services, ''zero''), (rx_support, ''first:$1''), (rx_support, ''second:$1'')]
     ''extras/android/support/v4'' = Inr ''first:v4'' \<and>
   mavenRef SYSTEM_LIBRARY_MAPPINGS ''extras/android/support/v4'' = Inr ''com.android.support:support-v4:+''"
proof -
  let ?data = "''cordova.system.library.1=extras/android/support/v4\<newline>cordova.system.library.2=a:b:c''"
  let ?key = "''cordova.system.library.''"
  have v: "findAllUniq ?data ?key = [''extras/android/support/v4'', ''a:b:c'']"
    by code_simp
  have h1: "''extras/android/support/v4'' \<in> set (findAllUniq ?data ?key)" by (simp add: v)
  have h2: "''a:b:c'' \<in> set (findAllUniq ?data ?key)" by (simp add: v)
  have s: "rx_support ''extras/android/support/v4'' =
           Some \<lparr>m_before = [], m_matched = ''extras/android/support/v4'', m_captures = [''v4''], m_after = []\<rparr>"
    by (simp add: rx_support_def is_line_terminator_def)
  have n: "rx_play_services ''extras/android/support/v4'' = None"
    by (simp add: rx_play_services_def)
  have r: "js_replace rx_support ''first:$1'' ''extras/android/support/v4'' = ''first:v4''"
    by (simp add: js_replace_def s capture_ref_def is_digit_def digit_val_def)
  have c1: "mavenRef [] ''a:b:c'' = Inr ''a:b:c''"
    using mavenRef_first_match[OF h2, of "[]"] by simp
  have c2: "mavenRef [(rx_play_services, ''zero''), (rx_support, ''first:$1''), (rx_support, ''second:$1'')]
     ''extras/android/support/v4'' = Inr ''first:v4''"
    using mavenRef_first_match[OF h1,
        of "[(rx_play_services, ''zero''), (rx_support, ''first:$1''), (rx_support, ''second:$1'')]"
           "[(rx_play_services, ''zero'')]" rx_support "''first:$1''" "[(rx_support, ''second:$1'')]"]
    by (simp add: s n r)
  have c3: "mavenRef SYSTEM_LIBRARY_MAPPINGS ''extras/android/support/v4'' = Inr ''com.android.support:support-v4:+''"
    using mavenRef_first_match[OF h1, of _ _ _ _ _ "\<lparr>m_before = [], m_matched = ''extras/android/support/v4'', m_captures = [''v4''], m_after = []\<rparr>"]
    by (simp add: s)
  from h1 h2 c1 c2 c3 show ?thesis by blast
qed

lemma systemLibs_forEach_fails:
  "p \<in> set ps \<Longrightarrow> mavenRef table p = Inl e \<Longrightarrow> \<exists>e'. systemLibs_forEach table ps depsList = Inl e'"
  by (induction ps arbitrary: depsList) (auto split: sum.splits)

text \<open>
  The resolver. A library with fewer than two colons that no rule of the table matches
  makes \<open>mavenRef\<close> fail with the error whose message ends with the raw value; a library
  of the list that fails makes the whole loop fail, and \<open>prepBuildFiles\<close> with it when
  the library is among the system libraries that \<open>readProjectProperties\<close> returns.
\<close>

theorem mavenRef_unsupported:
  "(count_list p CHR '':'' < 2 \<and> (\<forall>pair \<in> set table. fst pair p = None)
      \<longrightarrow> mavenRef table p =
           Inl (CordovaError (''Unsupported system library (does not work with gradle): '' @ p))) \<and>
   (p \<in> set ps \<and> mavenRef table p = Inl e
      \<longrightarrow> (\<exists>e'. systemLibs_forEach table ps depsList = Inl e')) \<and>
   (readProjectProperties J root fs = Inr propertiesObj \<and> p \<in> set (systemLibs propertiesObj) \<and>
    mavenRef SYSTEM_LIBRARY_MAPPINGS p = Inl e
      \<longrightarrow> (\<exists>e'. fst (prepBuildFiles J root fs) = Inl e')) \<and>
   mavenRef SYSTEM_LIBRARY_MAPPINGS ''some/random/path'' =
     Inl (CordovaError ''Unsupported system library (does not work with gradle): some/random/path'')"
proof (intro conjI impI)
  assume h: "count_list p CHR '':'' < 2 \<and> (\<forall>pair \<in> set table. fst pair p = None)"
  then have "\<not> two_colons p" using two_colons_count by fastforce
  moreover have "mappings_loop table p = None" using h mappings_loop_none by blast
  ultimately show "mavenRef table p =
           Inl (CordovaError (''Unsupported system library (does not work with gradle): '' @ p))"
    by (simp add: mavenRef_def)
next
  assume "p \<in> set ps \<and> mavenRef table p = Inl e"
  then show "\<exists>e'. systemLibs_forEach table ps depsList = Inl e'"
    using systemLibs_forEach_fails by blast
next
  assume h: "readProjectProperties J root fs = Inr propertiesObj \<and> p \<in> set (systemLibs propertiesObj) \<and>
    mavenRef SYSTEM_LIBRARY_MAPPINGS p = Inl e"
  then have "\<exists>e'. systemLibs_forEach SYSTEM_LIBRARY_MAPPINGS (systemLibs propertiesObj) d = Inl e'" for d
    using systemLibs_forEach_fails by blast
  then have "systemLibs_forEach SYSTEM_LIBRARY_MAPPINGS (systemLibs propertiesObj) d \<noteq> Inr x" for d x
    by (metis Inl_Inr_False)
  with h show "\<exists>e'. fst (prepBuildFiles J root fs) = Inl e'"
    by (auto simp: prepBuildFiles_def Let_def split: sum.splits)
next
  show "mavenRef SYSTEM_LIBRARY_MAPPINGS ''some/random/path'' =
     Inl (CordovaError ''Unsupported system library (does not work with gradle): some/random/path'')"
    by (simp add: mavenRef_def SYSTEM_LIBRARY_MAPPINGS_def rx_support_def rx_play_services_def)
qed

text \<open>
  A library with one colon that no rule matches, alone and between two libraries that
  are in gradle form, and as the only system library of the example project.
\<close>

theorem mavenRef_unsupported_witness:
  "count_list ''some:path'' CHR '':'' < 2 \<and>
   mavenRef SYSTEM_LIBRARY_MAPPINGS ''some:path'' =
     Inl (CordovaError (''Unsupported system library (does not work with gradle): '' @ ''some:path'')) \<and>
   ''some:path'' \<in> set [''a:b:c'', ''some:path'', ''d:e:f''] \<and>
   (\<exists>e'. systemLibs_forEach SYSTEM_LIBRARY_MAPPINGS [''a:b:c'', ''some:path'', ''d:e:f''] [] = Inl e') \<and>
   readProjectProperties join_slash ''r''
     (example_fs(''/r/project.properties'' \<mapsto> ''cordova.system.library.1=some:path'')) =
     Inr \<lparr>libs = [], gradleIncludes = [], systemLibs = [''some:path'']\<rparr> \<and>
   (\<exists>e'. fst (prepBuildFiles join_slash ''r''
               (example_fs(''/r/project.properties'' \<mapsto> ''cordova.system.library.1=some:path''))) =
          Inl e')"
proof -
  let ?fs = "example_fs(''/r/project.properties'' \<mapsto> ''cordova.system.library.1=some:path'')"
  let ?props = "\<lparr>libs = [], gradleIncludes = [], systemLibs = [''some:path'']\<rparr>"
  have h1: "count_list ''some:path'' CHR '':'' < 2" by simp
  have h2: "\<forall>pair \<in> set SYSTEM_LIBRARY_MAPPINGS. fst pair ''some:path'' = None"
    by (simp add: SYSTEM_LIBRARY_MAPPINGS_def rx_support_def rx_play_services_def)
  have c1: "mavenRef SYSTEM_LIBRARY_MAPPINGS ''some:path'' =
     Inl (CordovaError (''Unsupported system library (does not work with gradle): '' @ ''some:path''))"
    using mavenRef_unsupported[of "''some:path''" SYSTEM_LIBRARY_MAPPINGS] h1 h2 by blast
  have h3: "''some:path'' \<in> set [''a:b:c'', ''some:path'', ''d:e:f'']" by simp
  have c2: "\<exists>e'. systemLibs_forEach SYSTEM_LIBRARY_MAPPINGS [''a:b:c'', ''some:path'', ''d:e:f''] [] = Inl e'"
    using mavenRef_unsupported[of "''some:path''" SYSTEM_LIBRARY_MAPPINGS "[''a:b:c'', ''some:path'', ''d:e:f'']"] h3 c1
    by blast
  have h4: "readProjectProperties join_slash ''r'' ?fs = Inr ?props" by code_simp
  have h5: "''some:path'' \<in> set (systemLibs ?props)" by simp
  have c3: "\<exists>e'. fst (prepBuildFiles join_slash ''r'' ?fs) = Inl e'"
    using mavenRef_unsupported[where p = "''some:path''" and J = join_slash and root = "''r''"
        and fs = ?fs and propertiesObj = ?props] h4 h5 c1
    by blast
  from h1 c1 h3 c2 h4 c3 show ?thesis by blast
qed

text \<open>
  C4. Resolution of a system library without two colons that no rule matches should fail
  with the error that names the raw value, and the library should never be skipped. The
  code does not do so for the value \<open>__proto__\<close>. The parser reads it from the line
  \<open>cordova.system.library.1=__proto__\<close>; it holds no colon, no rule matches it, and
  \<open>mavenRef\<close>, were it asked, fails with the error that names it. But \<open>findAllUniq\<close>
  keeps the values it reads as the property names of an object, and the assignment to the
  name \<open>__proto__\<close> creates no property: the list of system libraries is empty,
  \<open>prepBuildFiles\<close> returns normally, and the descriptor it writes holds no dependency
  for the library.
\<close>

theorem prepBuildFiles_skips_proto_system_library:
  "exec_all ''cordova.system.library.'' True ''cordova.system.library.1=__proto__'' = [''__proto__''] \<and>
   findAllUniq ''cordova.system.library.1=__proto__'' ''cordova.system.library.'' = [] \<and>
   count_list ''__proto__'' CHR '':'' = 0 \<and>
   mavenRef SYSTEM_LIBRARY_MAPPINGS ''__proto__'' =
     Inl (CordovaError ''Unsupported system library (does not work with gradle): __proto__'') \<and>
   readProjectProperties join_slash ''r''
     (example_fs(''/r/project.properties'' \<mapsto> ''cordova.system.library.1=__proto__'')) =
     Inr \<lparr>libs = [], gradleIncludes = [], systemLibs = []\<rparr> \<and>
   fst (prepBuildFiles join_slash ''r''
          (example_fs(''/r/project.properties'' \<mapsto> ''cordova.system.library.1=__proto__''))) = Inr () \<and>
   snd (prepBuildFiles join_slash ''r''
          (example_fs(''/r/project.properties'' \<mapsto> ''cordova.system.library.1=__proto__'')))
       ''/r/build.gradle'' =
     Some (''// PLUGIN GRADLE EXTENSIONS START\<newline>// PLUGIN GRADLE EXTENSIONS END\<newline>'' @
           ''dependencies {\<newline>    // SUB-PROJECT DEPENDENCIES START\<newline>'' @
           ''    // SUB-PROJECT DEPENDENCIES END\<newline>}\<newline>'')"
  by code_simp

section \<open>Claims about the project properties\<close>

text \<open>
  C6 (as amended). \<open>findAllUniq data key\<close> is each of the three sequences of
  \<open>readProjectProperties\<close>, for its key. When no value read is \<open>__proto__\<close>, the sequence
  holds every value read exactly once; the values that are array indices come first, in
  ascending numeric order, and the other values follow in the order in which they were
  first seen. When no value read is an array index, the sequence is the values in
  first-seen order.
\<close>

theorem findAllUniq_first_seen:
  assumes "''__proto__'' \<notin> set (exec_all key True data)"
  shows "distinct (findAllUniq data key) \<and>
         set (findAllUniq data key) = set (exec_all key True data) \<and>
         findAllUniq data key =
           sort_key decimal_value (filter array_index (first_seen (exec_all key True data))) @
           filter (\<lambda>k. \<not> array_index k) (first_seen (exec_all key True data)) \<and>
         ((\<forall>v \<in> set (exec_all key True data). \<not> array_index v)
            \<longrightarrow> findAllUniq data key = first_seen (exec_all key True data))"
proof -
  have f: "foldl object_set [] (exec_all key True data) = first_seen (exec_all key True data)"
    using foldl_object_set_first_seen[OF assms, of "[]"] by simp
  have 1: "distinct (findAllUniq data key)"
    by (simp add: findAllUniq_def f distinct_Object_keys distinct_first_seen)
  have 2: "set (findAllUniq data key) = set (exec_all key True data)"
    using assms by (simp add: set_findAllUniq)
  have 3: "findAllUniq data key =
           sort_key decimal_value (filter array_index (first_seen (exec_all key True data))) @
           filter (\<lambda>k. \<not> array_index k) (first_seen (exec_all key True data))"
    by (simp add: findAllUniq_def f Object_keys_def)
  have 4: "findAllUniq data key = first_seen (exec_all key True data)"
    if "\<forall>v \<in> set (exec_all key True data). \<not> array_index v"
    using that by (simp add: findAllUniq_def f Object_keys_no_index set_first_seen)
  from 1 2 3 4 show ?thesis by blast
qed

text \<open>A value that is read twice is listed once, where it was first seen.\<close>

theorem findAllUniq_first_seen_witness:
  "exec_all ''android.library.reference.'' True
     ''android.library.reference.1=b\<newline>android.library.reference.2=a\<newline>android.library.reference.3=b'' =
     [''b'', ''a'', ''b''] \<and>
   \<not> array_index ''b'' \<and> \<not> array_index ''a'' \<and>
   findAllUniq ''android.library.reference.1=b\<newline>android.library.reference.2=a\<newline>android.library.reference.3=b''
     ''android.library.reference.'' = [''b'', ''a'']"
proof -
  let ?data = "''android.library.reference.1=b\<newline>android.library.reference.2=a\<newline>android.library.reference.3=b''"
  let ?key = "''android.library.reference.''"
  have e: "exec_all ?key True ?data = [''b'', ''a'', ''b'']" by code_simp
  have h1: "''__proto__'' \<notin> set (exec_all ?key True ?data)" by (simp add: e)
  have n: "\<not> array_index ''b''" "\<not> array_index ''a''" by (simp_all add: array_index_def is_digit_def)
  then have h2: "\<forall>v \<in> set (exec_all ?key True ?data). \<not> array_index v" by (simp add: e)
  have "findAllUniq ?data ?key = first_seen (exec_all ?key True ?data)"
    using findAllUniq_first_seen[OF h1] h2 by blast
  then have "findAllUniq ?data ?key = [''b'', ''a'']" by (simp add: e)
  with e n show ?thesis by blast
qed

text \<open>
  C6 (as stated) fails: the values \<open>2\<close> and \<open>1\<close>, read in this order, are listed as
  \<open>1\<close>, \<open>2\<close>.
\<close>

theorem findAllUniq_order_counterexample:
  "exec_all ''android.library.reference.'' True
     ''android.library.reference.1=2\<newline>android.library.reference.2=1'' = [''2'', ''1''] \<and>
   first_seen [''2'', ''1''] = [''2'', ''1''] \<and>
   findAllUniq ''android.library.reference.1=2\<newline>android.library.reference.2=1''
     ''android.library.reference.'' = [''1'', ''2'']"
  by code_simp

section \<open>Claims about the settings manifest\<close>

text \<open>
  C7. When the properties and the package name can be read, \<open>prepBuildFiles\<close> leaves in
  \<open>settings.gradle\<close>, whatever the file held before and whatever happens afterwards, the
  header comment, the declaration of the root module, and for every sub-project, in the
  order of the parsed sequence, the declaration of its module name, followed by the
  declaration of its directory exactly when the module name differs from the canonical
  path.
\<close>

theorem settings_gradle_overwritten:
  assumes "readProjectProperties J root fs = Inr propertiesObj"
    and "extractRealProjectNameFromManifest J root fs = Inr name"
    and "J [root, ''settings.gradle''] \<noteq> J [root, ''build.gradle'']"
  shows \<open>snd (prepBuildFiles J root fs) (J [root, ''settings.gradle'']) =
         Some (''// GENERATED FILE - DO NOT EDIT\<newline>'' @ ''include ":"\<newline>'' @
               concat (map (\<lambda>p. ''include ":'' @ libName name p @ ''"\<newline>'' @
                                (if libName name p \<noteq> realDir p
                                 then ''project(":'' @ libName name p @
                                      ''").projectDir = new File("'' @ p @ ''")\<newline>''
                                 else []))
                           (libs propertiesObj)))\<close>
proof -
  have \<open>settingsGradlePaths name ps =
        map (\<lambda>p. ''include ":'' @ libName name p @ ''"\<newline>'' @
                  (if libName name p \<noteq> realDir p
                   then ''project(":'' @ libName name p @ ''").projectDir = new File("'' @ p @ ''")\<newline>''
                   else [])) ps\<close> for ps
    by (simp add: settingsGradlePaths_def Let_def stripped_iff)
  then show ?thesis
    using prepBuildFiles_settings[OF assms] by (simp add: settings_gradle_def)
qed

text \<open>The example project, with a \<open>settings.gradle\<close> that somebody has edited.\<close>

theorem settings_gradle_overwritten_witness:
  \<open>readProjectProperties join_slash ''r'' (example_fs(''/r/settings.gradle'' \<mapsto> ''edited'')) =
     Inr \<lparr>libs = [''CordovaLib'', ''host-lib''], gradleIncludes = [''extra.gradle''],
          systemLibs = [''extras/android/support/v4'']\<rparr> \<and>
   extractRealProjectNameFromManifest join_slash ''r''
     (example_fs(''/r/settings.gradle'' \<mapsto> ''edited'')) = Inr ''host'' \<and>
   snd (prepBuildFiles join_slash ''r'' (example_fs(''/r/settings.gradle'' \<mapsto> ''edited'')))
     ''/r/settings.gradle'' =
     Some (''// GENERATED FILE - DO NOT EDIT\<newline>'' @ ''include ":"\<newline>'' @
           ''include ":CordovaLib"\<newline>'' @
           ''include ":lib"\<newline>'' @ ''project(":lib").projectDir = new File("host-lib")\<newline>'')\<close>
proof -
  let ?fs = "example_fs(''/r/settings.gradle'' \<mapsto> ''edited'')"
  let ?props = "\<lparr>libs = [''CordovaLib'', ''host-lib''], gradleIncludes = [''extra.gradle''],
          systemLibs = [''extras/android/support/v4'']\<rparr>"
  have h1: "readProjectProperties join_slash ''r'' ?fs = Inr ?props" by code_simp
  have h2: "extractRealProjectNameFromManifest join_slash ''r'' ?fs = Inr ''host''" by code_simp
  have h3: "join_slash [''r'', ''settings.gradle''] \<noteq> join_slash [''r'', ''build.gradle'']"
    by (simp add: join_slash_def)
  have l1: "libName ''host'' ''CordovaLib'' = ''CordovaLib''" by code_simp
  have l2: "libName ''host'' ''host-lib'' = ''lib''" by code_simp
  have r1: "realDir ''CordovaLib'' = ''CordovaLib''" by code_simp
  have r2: "realDir ''host-lib'' = ''host-lib''" by code_simp
  have j: "join_slash [''r'', ''settings.gradle''] = ''/r/settings.gradle''" by (simp add: join_slash_def)
  show ?thesis
    using settings_gradle_overwritten[OF h1 h2 h3] h1 h2
    by (simp add: l1 l2 r1 r2 j)
qed

section \<open>Claims about the build descriptor\<close>




section \<open>Claims about the signing properties\<close>

text \<open>
  C9. Without a \<open>packageInfo\<close>, \<open>prepEnv\<close> either leaves the signing-properties file of
  the build type as it was or deletes it, and it deletes it only when \<open>isAutoGenerated\<close>
  holds for it; a file that does not hold the marker phrase at a positive offset is left
  as it was. The same holds for \<open>clean\<close> and every file outside the \<open>out\<close> directory,
  among them the signing-properties files of \<open>debug\<close> and \<open>release\<close>. The paths that
  \<open>path.join\<close> gives to the other files that \<open>prepEnv\<close> writes are taken to differ from
  the path of the signing-properties file.
\<close>

theorem signing_properties_deleted_only_if_isAutoGenerated:
  assumes "packageInfo opts = None"
    and "sp = J [root, buildType opts @ SIGNING_PROPERTIES]"
    and "sp \<noteq> J [root, ''settings.gradle'']" and "sp \<noteq> J [root, ''build.gradle'']"
    and "\<forall>sub. sp \<noteq> J [root, sub, ''build.gradle'']"
    and "sp \<noteq> J [root, ''gradle'', ''wrapper'', ''gradle-wrapper.properties'']"
    and "cp = J [root, config @ SIGNING_PROPERTIES]"
    and "\<not> inside (J [root, ''out'']) cp"
  shows "(snd (prepEnv J sed root opts fs) sp = fs sp \<or>
          (isAutoGenerated fs sp \<and> snd (prepEnv J sed root opts fs) sp = None)) \<and>
         (\<forall>content. fs sp = Some content \<and> \<not> (\<exists>i. 0 < i \<and> occurs_at MARKER content i)
            \<longrightarrow> snd (prepEnv J sed root opts fs) sp = Some content) \<and>
         (clean J inside root fs cp = fs cp \<or>
          (isAutoGenerated fs cp \<and> clean J inside root fs cp = None)) \<and>
         (\<forall>content. fs cp = Some content \<and> \<not> (\<exists>i. 0 < i \<and> occurs_at MARKER content i)
            \<longrightarrow> clean J inside root fs cp = Some content)"
proof -
  have p: "snd (prepEnv J sed root opts fs) sp = fs sp \<or>
          (isAutoGenerated fs sp \<and> snd (prepEnv J sed root opts fs) sp = None)"
    using assms(1-6) by (rule prepEnv_signing_properties)
  have c: "clean J inside root fs cp = fs cp \<or>
          (isAutoGenerated fs cp \<and> clean J inside root fs cp = None)"
    using assms(8) by (rule clean_signing_properties)
  have n: "\<not> isAutoGenerated fs f"
    if "fs f = Some content" "\<not> (\<exists>i. 0 < i \<and> occurs_at MARKER content i)" for f content
  proof
    assume "isAutoGenerated fs f"
    then obtain content' i where "fs f = Some content'" "0 < i" "occurs_at MARKER content' i"
      using isAutoGenerated_positive_offset by blast
    with that show False by (metis option.inject)
  qed
  from p n have p': "\<forall>content. fs sp = Some content \<and> \<not> (\<exists>i. 0 < i \<and> occurs_at MARKER content i)
            \<longrightarrow> snd (prepEnv J sed root opts fs) sp = Some content"
    by metis
  from c n have c': "\<forall>content. fs cp = Some content \<and> \<not> (\<exists>i. 0 < i \<and> occurs_at MARKER content i)
            \<longrightarrow> clean J inside root fs cp = Some content"
    by metis
  from p p' c c' show ?thesis by blast
qed

text \<open>
  The example project: the signing-properties file that its owner has written is there,
  unchanged, after \<open>prepEnv\<close> for the build type \<open>debug\<close> and after \<open>clean\<close>.
\<close>

theorem signing_properties_deleted_only_if_isAutoGenerated_witness:
  "packageInfo \<lparr>buildType = ''debug'', packageInfo = None\<rparr> = None \<and>
   example_fs ''/r/debug-signing.properties'' = Some ''storeFile=my.keystore\<newline>'' \<and>
   \<not> sublist MARKER ''storeFile=my.keystore\<newline>'' \<and>
   \<not> inside_slash (join_slash [''r'', ''out'']) ''/r/debug-signing.properties'' \<and>
   snd (prepEnv join_slash (\<lambda>content. content) ''r'' \<lparr>buildType = ''debug'', packageInfo = None\<rparr> example_fs)
     ''/r/debug-signing.properties'' = Some ''storeFile=my.keystore\<newline>'' \<and>
   clean join_slash inside_slash ''r'' example_fs ''/r/debug-signing.properties'' =
     Some ''storeFile=my.keystore\<newline>''"
proof -
  let ?opts = "\<lparr>buildType = ''debug'', packageInfo = None\<rparr>"
  let ?sp = "''/r/debug-signing.properties''"
  have h1: "packageInfo ?opts = None" by simp
  have h2: "?sp = join_slash [''r'', buildType ?opts @ SIGNING_PROPERTIES]"
    by (simp add: join_slash_def SIGNING_PROPERTIES_def)
  have h3: "?sp \<noteq> join_slash [''r'', ''settings.gradle'']" by (simp add: join_slash_def)
  have h4: "?sp \<noteq> join_slash [''r'', ''build.gradle'']" by (simp add: join_slash_def)
  have h5: "\<forall>sub. ?sp \<noteq> join_slash [''r'', sub, ''build.gradle'']"
    using join_slash_build_gradle_differs by blast
  have h6: "?sp \<noteq> join_slash [''r'', ''gradle'', ''wrapper'', ''gradle-wrapper.properties'']"
    by (simp add: join_slash_def)
  have h7: "?sp = join_slash [''r'', ''debug'' @ SIGNING_PROPERTIES]"
    by (simp add: join_slash_def SIGNING_PROPERTIES_def)
  have h8: "\<not> inside_slash (join_slash [''r'', ''out'']) ?sp"
    by (simp add: join_slash_def inside_slash_def)
  have e: "example_fs ?sp = Some ''storeFile=my.keystore\<newline>''" by (simp add: example_fs_def)
  have m: "\<not> sublist MARKER ''storeFile=my.keystore\<newline>''" by code_simp
  then have m': "\<not> (\<exists>i. 0 < i \<and> occurs_at MARKER ''storeFile=my.keystore\<newline>'' i)"
    using sublist_iff_occurs_at by blast
  note t = signing_properties_deleted_only_if_isAutoGenerated[where fs = example_fs
      and sed = "\<lambda>content. content" and J = join_slash and root = "''r''" and opts = ?opts
      and sp = ?sp and cp = ?sp and config = "''debug''" and inside = inside_slash,
      OF h1 h2 h3 h4 h5 h6 h7 h8]
  from t e m' have c1: "snd (prepEnv join_slash (\<lambda>content. content) ''r'' ?opts example_fs) ?sp =
     Some ''storeFile=my.keystore\<newline>''" by blast
  from t e m' have c2: "clean join_slash inside_slash ''r'' example_fs ?sp =
     Some ''storeFile=my.keystore\<newline>''" by blast
  from h1 e m h8 c1 c2 show ?thesis by blast
qed

section \<open>Claims about the injection\<close>

text \<open>
  The injection on texts without a dollar sign. Let the dependency text and the include
  text consist of whole lines, hold no dollar sign, and hold no marker of the other pair.
  For a descriptor in
  which the two marker regions follow one another, in either order, each START marker
  shown being the first occurrence of its phrase and each END marker the last occurrence
  of its phrase, the injection replaces the text between the dependency markers by a line
  feed, the dependency text and four spaces, and the text between the extension markers
  by a line feed and the include text; the text before, between and after the regions and
  the four marker phrases stay as they are, and injecting a second time gives the first
  result. The texts that the builder generates consist of whole lines.
\<close>

theorem inject_regions_idempotent:
  assumes "CHR ''$'' \<notin> set depsList" and "CHR ''$'' \<notin> set includeList"
    and "whole_lines depsList" and "whole_lines includeList"
    and "\<not> sublist PLUGIN_GRADLE_EXTENSIONS_START depsList"
    and "\<not> sublist PLUGIN_GRADLE_EXTENSIONS_END depsList"
    and "\<not> sublist SUB_PROJECT_DEPENDENCIES_START includeList"
    and "\<not> sublist SUB_PROJECT_DEPENDENCIES_END includeList"
  shows
    "(no_earlier SUB_PROJECT_DEPENDENCIES_START A \<and>
      no_later SUB_PROJECT_DEPENDENCIES_END
        (C @ PLUGIN_GRADLE_EXTENSIONS_START @ D @ PLUGIN_GRADLE_EXTENSIONS_END @ F) \<and>
      no_earlier PLUGIN_GRADLE_EXTENSIONS_START
        (A @ SUB_PROJECT_DEPENDENCIES_START @ B @ SUB_PROJECT_DEPENDENCIES_END @ C) \<and>
      no_later PLUGIN_GRADLE_EXTENSIONS_END F
      \<longrightarrow>
      inject depsList includeList
        (A @ SUB_PROJECT_DEPENDENCIES_START @ B @ SUB_PROJECT_DEPENDENCIES_END @ C @
         PLUGIN_GRADLE_EXTENSIONS_START @ D @ PLUGIN_GRADLE_EXTENSIONS_END @ F) =
        A @ SUB_PROJECT_DEPENDENCIES_START @ (''\<newline>'' @ depsList @ ''    '') @
        SUB_PROJECT_DEPENDENCIES_END @ C @
        PLUGIN_GRADLE_EXTENSIONS_START @ (''\<newline>'' @ includeList) @ PLUGIN_GRADLE_EXTENSIONS_END @ F \<and>
      inject depsList includeList (inject depsList includeList
        (A @ SUB_PROJECT_DEPENDENCIES_START @ B @ SUB_PROJECT_DEPENDENCIES_END @ C @
         PLUGIN_GRADLE_EXTENSIONS_START @ D @ PLUGIN_GRADLE_EXTENSIONS_END @ F)) =
      inject depsList includeList
        (A @ SUB_PROJECT_DEPENDENCIES_START @ B @ SUB_PROJECT_DEPENDENCIES_END @ C @
         PLUGIN_GRADLE_EXTENSIONS_START @ D @ PLUGIN_GRADLE_EXTENSIONS_END @ F)) \<and>
     (no_earlier PLUGIN_GRADLE_EXTENSIONS_START A \<and>
      no_later PLUGIN_GRADLE_EXTENSIONS_END
        (C @ SUB_PROJECT_DEPENDENCIES_START @ B @ SUB_PROJECT_DEPENDENCIES_END @ F) \<and>
      no_earlier SUB_PROJECT_DEPENDENCIES_START
        (A @ PLUGIN_GRADLE_EXTENSIONS_START @ D @ PLUGIN_GRADLE_EXTENSIONS_END @ C) \<and>
      no_later SUB_PROJECT_DEPENDENCIES_END F
      \<longrightarrow>
      inject depsList includeList
        (A @ PLUGIN_GRADLE_EXTENSIONS_START @ D @ PLUGIN_GRADLE_EXTENSIONS_END @ C @
         SUB_PROJECT_DEPENDENCIES_START @ B @ SUB_PROJECT_DEPENDENCIES_END @ F) =
        A @ PLUGIN_GRADLE_EXTENSIONS_START @ (''\<newline>'' @ includeList) @ PLUGIN_GRADLE_EXTENSIONS_END @ C @
        SUB_PROJECT_DEPENDENCIES_START @ (''\<newline>'' @ depsList @ ''    '') @
        SUB_PROJECT_DEPENDENCIES_END @ F \<and>
      inject depsList includeList (inject depsList includeList
        (A @ PLUGIN_GRADLE_EXTENSIONS_START @ D @ PLUGIN_GRADLE_EXTENSIONS_END @ C @
         SUB_PROJECT_DEPENDENCIES_START @ B @ SUB_PROJECT_DEPENDENCIES_END @ F)) =
      inject depsList includeList
        (A @ PLUGIN_GRADLE_EXTENSIONS_START @ D @ PLUGIN_GRADLE_EXTENSIONS_END @ C @
         SUB_PROJECT_DEPENDENCIES_START @ B @ SUB_PROJECT_DEPENDENCIES_END @ F)) \<and>
     whole_lines (includeList_of includePaths) \<and>
     (subProjects_forEach J root fs name subProjects [] = Inr depsList' \<and>
      systemLibs_forEach table libraries depsList' = Inr depsList''
      \<longrightarrow> whole_lines depsList'')"
proof (intro conjI impI)
  assume h: "no_earlier SUB_PROJECT_DEPENDENCIES_START A \<and>
      no_later SUB_PROJECT_DEPENDENCIES_END
        (C @ PLUGIN_GRADLE_EXTENSIONS_START @ D @ PLUGIN_GRADLE_EXTENSIONS_END @ F) \<and>
      no_earlier PLUGIN_GRADLE_EXTENSIONS_START
        (A @ SUB_PROJECT_DEPENDENCIES_START @ B @ SUB_PROJECT_DEPENDENCIES_END @ C) \<and>
      no_later PLUGIN_GRADLE_EXTENSIONS_END F"
  note l = inject_dependencies_first[OF assms(1) assms(3) assms(5) assms(2) assms(4) assms(8),
      of A C D F B]
  from h l(1) show "inject depsList includeList
        (A @ SUB_PROJECT_DEPENDENCIES_START @ B @ SUB_PROJECT_DEPENDENCIES_END @ C @
         PLUGIN_GRADLE_EXTENSIONS_START @ D @ PLUGIN_GRADLE_EXTENSIONS_END @ F) =
        A @ SUB_PROJECT_DEPENDENCIES_START @ (''\<newline>'' @ depsList @ ''    '') @
        SUB_PROJECT_DEPENDENCIES_END @ C @
        PLUGIN_GRADLE_EXTENSIONS_START @ (''\<newline>'' @ includeList) @ PLUGIN_GRADLE_EXTENSIONS_END @ F"
    by blast
  from h l(1) l(2) show "inject depsList includeList (inject depsList includeList
        (A @ SUB_PROJECT_DEPENDENCIES_START @ B @ SUB_PROJECT_DEPENDENCIES_END @ C @
         PLUGIN_GRADLE_EXTENSIONS_START @ D @ PLUGIN_GRADLE_EXTENSIONS_END @ F)) =
      inject depsList includeList
        (A @ SUB_PROJECT_DEPENDENCIES_START @ B @ SUB_PROJECT_DEPENDENCIES_END @ C @
         PLUGIN_GRADLE_EXTENSIONS_START @ D @ PLUGIN_GRADLE_EXTENSIONS_END @ F)"
    by metis
next
  assume h: "no_earlier PLUGIN_GRADLE_EXTENSIONS_START A \<and>
      no_later PLUGIN_GRADLE_EXTENSIONS_END
        (C @ SUB_PROJECT_DEPENDENCIES_START @ B @ SUB_PROJECT_DEPENDENCIES_END @ F) \<and>
      no_earlier SUB_PROJECT_DEPENDENCIES_START
        (A @ PLUGIN_GRADLE_EXTENSIONS_START @ D @ PLUGIN_GRADLE_EXTENSIONS_END @ C) \<and>
      no_later SUB_PROJECT_DEPENDENCIES_END F"
  note l = inject_extensions_first[OF assms(1) assms(3) assms(6) assms(2) assms(4) assms(7),
      of A C B F D]
  from h l(1) show "inject depsList includeList
        (A @ PLUGIN_GRADLE_EXTENSIONS_START @ D @ PLUGIN_GRADLE_EXTENSIONS_END @ C @
         SUB_PROJECT_DEPENDENCIES_START @ B @ SUB_PROJECT_DEPENDENCIES_END @ F) =
        A @ PLUGIN_GRADLE_EXTENSIONS_START @ (''\<newline>'' @ includeList) @ PLUGIN_GRADLE_EXTENSIONS_END @ C @
        SUB_PROJECT_DEPENDENCIES_START @ (''\<newline>'' @ depsList @ ''    '') @
        SUB_PROJECT_DEPENDENCIES_END @ F"
    by blast
  from h l(1) l(2) show "inject depsList includeList (inject depsList includeList
        (A @ PLUGIN_GRADLE_EXTENSIONS_START @ D @ PLUGIN_GRADLE_EXTENSIONS_END @ C @
         SUB_PROJECT_DEPENDENCIES_START @ B @ SUB_PROJECT_DEPENDENCIES_END @ F)) =
      inject depsList includeList
        (A @ PLUGIN_GRADLE_EXTENSIONS_START @ D @ PLUGIN_GRADLE_EXTENSIONS_END @ C @
         SUB_PROJECT_DEPENDENCIES_START @ B @ SUB_PROJECT_DEPENDENCIES_END @ F)"
    by metis
next
  show "whole_lines (includeList_of includePaths)" by (rule whole_lines_includeList_of)
next
  assume h: "subProjects_forEach J root fs name subProjects [] = Inr depsList' \<and>
      systemLibs_forEach table libraries depsList' = Inr depsList''"
  have "whole_lines []" by (simp add: whole_lines_def)
  with h have "whole_lines depsList'" using whole_lines_subProjects_forEach by blast
  with h show "whole_lines depsList''" using whole_lines_systemLibs_forEach by blast
qed

text \<open>
  The example project: its descriptor has the extension markers first; the texts are
  the ones that \<open>prepBuildFiles\<close> generates for it. Then a descriptor with the
  dependency markers first and nothing to inject: the END marker, which stood at the
  start of its line, stands after four spaces.
\<close>

theorem inject_regions_idempotent_witness:
  \<open>example_build_gradle =
     ''// '' @ PLUGIN_GRADLE_EXTENSIONS_START @ ''\<newline>'' @ PLUGIN_GRADLE_EXTENSIONS_END @
     ''\<newline>dependencies {\<newline>    // '' @ SUB_PROJECT_DEPENDENCIES_START @ ''\<newline>    old\<newline>    '' @
     SUB_PROJECT_DEPENDENCIES_END @ ''\<newline>}\<newline>'' \<and>
   snd (prepBuildFiles join_slash ''r'' example_fs) ''/r/build.gradle'' =
     Some (inject
       (''    implementation(project(path: "CordovaLib"))\<newline>'' @
        ''    implementation(project(path: "lib")){\<newline>        exclude module:("CordovaLib")\<newline>    }\<newline>'' @
        ''    compile "com.android.support:support-v4:+"\<newline>'')
       ''apply from: "extra.gradle"\<newline>'' example_build_gradle) \<and>
   inject
     (''    implementation(project(path: "CordovaLib"))\<newline>'' @
      ''    implementation(project(path: "lib")){\<newline>        exclude module:("CordovaLib")\<newline>    }\<newline>'' @
      ''    compile "com.android.support:support-v4:+"\<newline>'')
     ''apply from: "extra.gradle"\<newline>'' example_build_gradle =
     ''// '' @ PLUGIN_GRADLE_EXTENSIONS_START @ (''\<newline>'' @ ''apply from: "extra.gradle"\<newline>'') @
     PLUGIN_GRADLE_EXTENSIONS_END @
     ''\<newline>dependencies {\<newline>    // '' @ SUB_PROJECT_DEPENDENCIES_START @
     (''\<newline>'' @
      (''    implementation(project(path: "CordovaLib"))\<newline>'' @
       ''    implementation(project(path: "lib")){\<newline>        exclude module:("CordovaLib")\<newline>    }\<newline>'' @
       ''    compile "com.android.support:support-v4:+"\<newline>'') @ ''    '') @
     SUB_PROJECT_DEPENDENCIES_END @ ''\<newline>}\<newline>'' \<and>
   inject
     (''    implementation(project(path: "CordovaLib"))\<newline>'' @
      ''    implementation(project(path: "lib")){\<newline>        exclude module:("CordovaLib")\<newline>    }\<newline>'' @
      ''    compile "com.android.support:support-v4:+"\<newline>'')
     ''apply from: "extra.gradle"\<newline>''
     (inject
       (''    implementation(project(path: "CordovaLib"))\<newline>'' @
        ''    implementation(project(path: "lib")){\<newline>        exclude module:("CordovaLib")\<newline>    }\<newline>'' @
        ''    compile "com.android.support:support-v4:+"\<newline>'')
       ''apply from: "extra.gradle"\<newline>'' example_build_gradle) =
   inject
     (''    implementation(project(path: "CordovaLib"))\<newline>'' @
      ''    implementation(project(path: "lib")){\<newline>        exclude module:("CordovaLib")\<newline>    }\<newline>'' @
      ''    compile "com.android.support:support-v4:+"\<newline>'')
     ''apply from: "extra.gradle"\<newline>'' example_build_gradle \<and>
   inject [] []
     (''// '' @ SUB_PROJECT_DEPENDENCIES_START @ ''\<newline>'' @ SUB_PROJECT_DEPENDENCIES_END @
      ''\<newline>// '' @ PLUGIN_GRADLE_EXTENSIONS_START @ ''\<newline>'' @ PLUGIN_GRADLE_EXTENSIONS_END @ ''\<newline>'') =
     ''// '' @ SUB_PROJECT_DEPENDENCIES_START @ (''\<newline>'' @ [] @ ''    '') @ SUB_PROJECT_DEPENDENCIES_END @
     ''\<newline>// '' @ PLUGIN_GRADLE_EXTENSIONS_START @ (''\<newline>'' @ []) @ PLUGIN_GRADLE_EXTENSIONS_END @ ''\<newline>'' \<and>
   inject [] [] (inject [] []
     (''// '' @ SUB_PROJECT_DEPENDENCIES_START @ ''\<newline>'' @ SUB_PROJECT_DEPENDENCIES_END @
      ''\<newline>// '' @ PLUGIN_GRADLE_EXTENSIONS_START @ ''\<newline>'' @ PLUGIN_GRADLE_EXTENSIONS_END @ ''\<newline>'')) =
   inject [] []
     (''// '' @ SUB_PROJECT_DEPENDENCIES_START @ ''\<newline>'' @ SUB_PROJECT_DEPENDENCIES_END @
      ''\<newline>// '' @ PLUGIN_GRADLE_EXTENSIONS_START @ ''\<newline>'' @ PLUGIN_GRADLE_EXTENSIONS_END @ ''\<newline>'')\<close>
proof -
  let ?d = \<open>''    implementation(project(path: "CordovaLib"))\<newline>'' @
        ''    implementation(project(path: "lib")){\<newline>        exclude module:("CordovaLib")\<newline>    }\<newline>'' @
        ''    compile "com.android.support:support-v4:+"\<newline>''\<close>
  let ?i = \<open>''apply from: "extra.gradle"\<newline>''\<close>
  let ?A = "''// ''" and ?D = "''\<newline>''" and ?C = "''\<newline>dependencies {\<newline>    // ''"
  let ?B = "''\<newline>    old\<newline>    ''" and ?F = "''\<newline>}\<newline>''"
  have b: "example_build_gradle =
     ?A @ PLUGIN_GRADLE_EXTENSIONS_START @ ?D @ PLUGIN_GRADLE_EXTENSIONS_END @
     ?C @ SUB_PROJECT_DEPENDENCIES_START @ ?B @ SUB_PROJECT_DEPENDENCIES_END @ ?F"
    by (simp add: example_build_gradle_def PLUGIN_GRADLE_EXTENSIONS_START_def
          PLUGIN_GRADLE_EXTENSIONS_END_def SUB_PROJECT_DEPENDENCIES_START_def
          SUB_PROJECT_DEPENDENCIES_END_def)
  have h1: "CHR ''$'' \<notin> set ?d" by simp
  have h2: "CHR ''$'' \<notin> set ?i" by simp
  have h3: "whole_lines ?d" by (simp add: whole_lines_def)
  have h4: "whole_lines ?i" by (simp add: whole_lines_def)
  have h5: "\<not> sublist PLUGIN_GRADLE_EXTENSIONS_START ?d" by code_simp
  have h6: "\<not> sublist PLUGIN_GRADLE_EXTENSIONS_END ?d" by code_simp
  have h7: "\<not> sublist SUB_PROJECT_DEPENDENCIES_START ?i" by code_simp
  have h8: "\<not> sublist SUB_PROJECT_DEPENDENCIES_END ?i" by code_simp
  have p: "no_earlier PLUGIN_GRADLE_EXTENSIONS_START ?A \<and>
      no_later PLUGIN_GRADLE_EXTENSIONS_END
        (?C @ SUB_PROJECT_DEPENDENCIES_START @ ?B @ SUB_PROJECT_DEPENDENCIES_END @ ?F) \<and>
      no_earlier SUB_PROJECT_DEPENDENCIES_START
        (?A @ PLUGIN_GRADLE_EXTENSIONS_START @ ?D @ PLUGIN_GRADLE_EXTENSIONS_END @ ?C) \<and>
      no_later SUB_PROJECT_DEPENDENCIES_END ?F"
    by code_simp
  have r: "snd (prepBuildFiles join_slash ''r'' example_fs) ''/r/build.gradle'' =
           Some (inject ?d ?i example_build_gradle)"
    by code_simp
  note t = inject_regions_idempotent[OF h1 h2 h3 h4 h5 h6 h7 h8,
      where A = ?A and C = ?C and B = ?B and F = ?F and D = ?D]
  note c = mp[OF conjunct1[OF conjunct2[OF t]] p]
  have e: "CHR ''$'' \<notin> set []" "whole_lines []" "\<not> sublist PLUGIN_GRADLE_EXTENSIONS_START []"
    "\<not> sublist PLUGIN_GRADLE_EXTENSIONS_END []" "\<not> sublist SUB_PROJECT_DEPENDENCIES_START []"
    "\<not> sublist SUB_PROJECT_DEPENDENCIES_END []"
    by (simp_all add: whole_lines_def markers_facts)
  have q: "no_earlier SUB_PROJECT_DEPENDENCIES_START ''// '' \<and>
      no_later SUB_PROJECT_DEPENDENCIES_END
        (''\<newline>// '' @ PLUGIN_GRADLE_EXTENSIONS_START @ ''\<newline>'' @ PLUGIN_GRADLE_EXTENSIONS_END @ ''\<newline>'') \<and>
      no_earlier PLUGIN_GRADLE_EXTENSIONS_START
        (''// '' @ SUB_PROJECT_DEPENDENCIES_START @ ''\<newline>'' @ SUB_PROJECT_DEPENDENCIES_END @ ''\<newline>// '') \<and>
      no_later PLUGIN_GRADLE_EXTENSIONS_END ''\<newline>''"
    by code_simp
  note t' = inject_regions_idempotent[OF e(1) e(1) e(2) e(2) e(3) e(4) e(5) e(6),
      where A = "''// ''" and B = "''\<newline>''" and C = "''\<newline>// ''" and D = "''\<newline>''" and F = "''\<newline>''"]
  note c' = mp[OF conjunct1[OF t'] q]
  show ?thesis by (rule conjI[OF b conjI[OF r conjI[OF conjunct1[OF c[folded b]]
        conjI[OF conjunct2[OF c[folded b]] c']]]])
qed

text \<open>
  C2. A second run of the injection with the same properties should leave between the
  markers the text that the first run left there. The code does not do so when a system
  library holds a dollar pattern. With the line \<open>cordova.system.library.1=a:b:$&\<close> in
  the properties, the library is in gradle form and is written into the dependency text as
  it stands; the dependency text is then part of the replacement string of
  \<open>String.prototype.replace\<close>, where \<open>$&\<close> stands for the matched text. The first run
  copies the old region into the new one; it leaves the properties as they are; and the
  second run copies the region of the first run. The text between the dependency markers
  after the second run is not the text after the first run.
\<close>

theorem prepBuildFiles_second_run_differs:
  \<open>fst (prepBuildFiles join_slash ''r''
          (example_fs(''/r/project.properties'' \<mapsto> ''cordova.system.library.1=a:b:$&''))) = Inr () \<and>
   snd (prepBuildFiles join_slash ''r''
          (example_fs(''/r/project.properties'' \<mapsto> ''cordova.system.library.1=a:b:$&'')))
       ''/r/project.properties'' = Some ''cordova.system.library.1=a:b:$&'' \<and>
   snd (prepBuildFiles join_slash ''r''
          (example_fs(''/r/project.properties'' \<mapsto> ''cordova.system.library.1=a:b:$&'')))
       ''/r/build.gradle'' =
     Some (''// PLUGIN GRADLE EXTENSIONS START\<newline>// PLUGIN GRADLE EXTENSIONS END\<newline>'' @
           ''dependencies {\<newline>    // SUB-PROJECT DEPENDENCIES START'' @
           ''\<newline>    compile "a:b:SUB-PROJECT DEPENDENCIES START\<newline>    old\<newline>    // SUB-PROJECT DEPENDENCIES END"\<newline>    '' @
           ''// SUB-PROJECT DEPENDENCIES END\<newline>}\<newline>'') \<and>
   fst (prepBuildFiles join_slash ''r''
          (snd (prepBuildFiles join_slash ''r''
             (example_fs(''/r/project.properties'' \<mapsto> ''cordova.system.library.1=a:b:$&''))))) = Inr () \<and>
   snd (prepBuildFiles join_slash ''r''
          (snd (prepBuildFiles join_slash ''r''
             (example_fs(''/r/project.properties'' \<mapsto> ''cordova.system.library.1=a:b:$&'')))))
       ''/r/build.gradle'' =
     Some (''// PLUGIN GRADLE EXTENSIONS START\<newline>// PLUGIN GRADLE EXTENSIONS END\<newline>'' @
           ''dependencies {\<newline>    // SUB-PROJECT DEPENDENCIES START'' @
           ''\<newline>    compile "a:b:SUB-PROJECT DEPENDENCIES START\<newline>    compile "a:b:SUB-PROJECT DEPENDENCIES START\<newline>    old\<newline>    // SUB-PROJECT DEPENDENCIES END"\<newline>    // SUB-PROJECT DEPENDENCIES END"\<newline>    '' @
           ''// SUB-PROJECT DEPENDENCIES END\<newline>}\<newline>'') \<and>
   snd (prepBuildFiles join_slash ''r''
          (snd (prepBuildFiles join_slash ''r''
             (example_fs(''/r/project.properties'' \<mapsto> ''cordova.system.library.1=a:b:$&'')))))
       ''/r/build.gradle'' \<noteq>
   snd (prepBuildFiles join_slash ''r''
          (example_fs(''/r/project.properties'' \<mapsto> ''cordova.system.library.1=a:b:$&'')))
       ''/r/build.gradle''\<close>
proof -
  let ?fs = "example_fs(''/r/project.properties'' \<mapsto> ''cordova.system.library.1=a:b:$&'')"
  let ?T1 = \<open>''// PLUGIN GRADLE EXTENSIONS START\<newline>// PLUGIN GRADLE EXTENSIONS END\<newline>'' @
           ''dependencies {\<newline>    // SUB-PROJECT DEPENDENCIES START'' @
           ''\<newline>    compile "a:b:SUB-PROJECT DEPENDENCIES START\<newline>    old\<newline>    // SUB-PROJECT DEPENDENCIES END"\<newline>    '' @
           ''// SUB-PROJECT DEPENDENCIES END\<newline>}\<newline>''\<close>
  let ?T2 = \<open>''// PLUGIN GRADLE EXTENSIONS START\<newline>// PLUGIN GRADLE EXTENSIONS END\<newline>'' @
           ''dependencies {\<newline>    // SUB-PROJECT DEPENDENCIES START'' @
           ''\<newline>    compile "a:b:SUB-PROJECT DEPENDENCIES START\<newline>    compile "a:b:SUB-PROJECT DEPENDENCIES START\<newline>    old\<newline>    // SUB-PROJECT DEPENDENCIES END"\<newline>    // SUB-PROJECT DEPENDENCIES END"\<newline>    '' @
           ''// SUB-PROJECT DEPENDENCIES END\<newline>}\<newline>''\<close>
  have a: "fst (prepBuildFiles join_slash ''r'' ?fs) = Inr () \<and>
           snd (prepBuildFiles join_slash ''r'' ?fs) ''/r/project.properties'' =
             Some ''cordova.system.library.1=a:b:$&'' \<and>
           snd (prepBuildFiles join_slash ''r'' ?fs) ''/r/build.gradle'' = Some ?T1 \<and>
           fst (prepBuildFiles join_slash ''r'' (snd (prepBuildFiles join_slash ''r'' ?fs))) = Inr () \<and>
           snd (prepBuildFiles join_slash ''r'' (snd (prepBuildFiles join_slash ''r'' ?fs)))
             ''/r/build.gradle'' = Some ?T2"
    by code_simp
  note a1 = conjunct1[OF a]
  note a2 = conjunct1[OF conjunct2[OF a]]
  note a3 = conjunct1[OF conjunct2[OF conjunct2[OF a]]]
  note a4 = conjunct1[OF conjunct2[OF conjunct2[OF conjunct2[OF a]]]]
  note a5 = conjunct2[OF conjunct2[OF conjunct2[OF conjunct2[OF a]]]]
  have d: "snd (prepBuildFiles join_slash ''r'' (snd (prepBuildFiles join_slash ''r'' ?fs)))
             ''/r/build.gradle'' \<noteq>
           snd (prepBuildFiles join_slash ''r'' ?fs) ''/r/build.gradle''"
    unfolding a3 a5 by simp
  show ?thesis
    by (rule conjI[OF a1 conjI[OF a2 conjI[OF a3 conjI[OF a4 conjI[OF a5 d]]]]])
qed

end
